theory Spec2Isabelle
  imports Complex_Main
begin

section \<open>Floating-point values\<close>

text \<open>
  A C \<^verbatim>\<open>float\<close> or \<^verbatim>\<open>double\<close> value is a finite rational, an infinity or a NaN.
  Arithmetic computes the exact rational result and rounds it to the nearest representable
  value of the format, ties to even, overflowing to an infinity, as IEEE 754 does;
  \<open>round32\<close> is the rounding of \<^verbatim>\<open>float\<close> and \<open>round64\<close> that of \<^verbatim>\<open>double\<close>.
  The sign of a zero is not represented.
\<close>

datatype flt = Finite rat | PInf | NInf | NaN

function power2 :: "int \<Rightarrow> rat" where
  \<comment> \<open>\<open>2 ^ k\<close> by squaring, for \<open>0 \<le> k\<close>\<close>
  "power2 k = (if k \<le> 0 then 1
               else if even k then (let h = power2 (k div 2) in h * h)
               else 2 * power2 (k - 1))"
  by pat_completeness auto
termination
  by (relation "measure nat") auto

declare power2.simps [simp del]

definition pow2 :: "int \<Rightarrow> rat" where
  "pow2 k = (if 0 \<le> k then power2 k else 1 / power2 (- k))"

function bitlen :: "int \<Rightarrow> int" where
  \<comment> \<open>the number of binary digits of \<open>n\<close>\<close>
  "bitlen n = (if 0 < n then 1 + bitlen (n div 2) else 0)"
  by pat_completeness auto
termination
  by (relation "measure nat") auto

declare bitlen.simps [simp del]

definition ilog2 :: "rat \<Rightarrow> int" where
  \<comment> \<open>the integer \<open>e\<close> with \<open>2 ^ e \<le> a < 2 ^ (e + 1)\<close>, for \<open>0 < a\<close>\<close>
  "ilog2 a = (if 1 \<le> a then bitlen \<lfloor>a\<rfloor> - 1 else - bitlen (\<lceil>1 / a\<rceil> - 1))"

definition round_even :: "rat \<Rightarrow> int" where
  "round_even x = (let f = \<lfloor>x\<rfloor>; r = x - of_int f in
     if r < 1 / 2 then f else if 1 / 2 < r then f + 1 else if even f then f else f + 1)"

definition round_fp :: "nat \<Rightarrow> int \<Rightarrow> int \<Rightarrow> rat \<Rightarrow> flt" where
  \<comment> \<open>precision in bits, least and greatest exponent of a normal number\<close>
  "round_fp p emin emax x =
     (if x = 0 then Finite 0
      else let a = \<bar>x\<bar>;
               e = max emin (ilog2 a);
               u = pow2 (e - (int p - 1));
               v = of_int (round_even (a / u)) * u
           in if pow2 (emax + 1) \<le> v then (if 0 < x then PInf else NInf)
              else Finite (if 0 < x then v else - v))"

definition round32 :: "rat \<Rightarrow> flt" where
  "round32 = round_fp 24 (- 126) 127"

definition round64 :: "rat \<Rightarrow> flt" where
  "round64 = round_fp 53 (- 1022) 1023"

definition FLT_MAX :: flt where
  "FLT_MAX = Finite (2 ^ 128 - 2 ^ 104)"

fun fneg :: "flt \<Rightarrow> flt" where
  "fneg (Finite a) = Finite (- a)"
| "fneg PInf = NInf"
| "fneg NInf = PInf"
| "fneg NaN = NaN"

fun isfinite :: "flt \<Rightarrow> bool" where
  "isfinite (Finite a) = True"
| "isfinite PInf = False"
| "isfinite NInf = False"
| "isfinite NaN = False"

fun add_fp :: "(rat \<Rightarrow> flt) \<Rightarrow> flt \<Rightarrow> flt \<Rightarrow> flt" where
  "add_fp rnd (Finite a) (Finite b) = rnd (a + b)"
| "add_fp rnd NaN y = NaN"
| "add_fp rnd x NaN = NaN"
| "add_fp rnd PInf NInf = NaN"
| "add_fp rnd NInf PInf = NaN"
| "add_fp rnd PInf y = PInf"
| "add_fp rnd NInf y = NInf"
| "add_fp rnd x PInf = PInf"
| "add_fp rnd x NInf = NInf"

fun flt_sign :: "flt \<Rightarrow> int" where
  "flt_sign (Finite a) = (if 0 < a then 1 else if a < 0 then - 1 else 0)"
| "flt_sign PInf = 1"
| "flt_sign NInf = - 1"
| "flt_sign NaN = 0"

definition signed_inf :: "int \<Rightarrow> flt" where
  "signed_inf s = (if s = 0 then NaN else if 0 < s then PInf else NInf)"

fun mul_fp :: "(rat \<Rightarrow> flt) \<Rightarrow> flt \<Rightarrow> flt \<Rightarrow> flt" where
  "mul_fp rnd (Finite a) (Finite b) = rnd (a * b)"
| "mul_fp rnd NaN y = NaN"
| "mul_fp rnd x NaN = NaN"
| "mul_fp rnd x y = signed_inf (flt_sign x * flt_sign y)"

fun div_fp :: "(rat \<Rightarrow> flt) \<Rightarrow> flt \<Rightarrow> flt \<Rightarrow> flt" where
  "div_fp rnd (Finite a) (Finite b) =
     (if b = 0 then signed_inf (flt_sign (Finite a)) else rnd (a / b))"
| "div_fp rnd NaN y = NaN"
| "div_fp rnd x NaN = NaN"
| "div_fp rnd (Finite a) y = Finite 0"
| "div_fp rnd x (Finite b) = signed_inf (flt_sign x * (if b < 0 then - 1 else 1))"
| "div_fp rnd x y = NaN"

definition fadd :: "flt \<Rightarrow> flt \<Rightarrow> flt" where
  "fadd = add_fp round32"

definition fsub :: "flt \<Rightarrow> flt \<Rightarrow> flt" where
  "fsub a b = add_fp round32 a (fneg b)"

definition fmul :: "flt \<Rightarrow> flt \<Rightarrow> flt" where
  "fmul = mul_fp round32"

definition fdiv :: "flt \<Rightarrow> flt \<Rightarrow> flt" where
  "fdiv = div_fp round32"

definition dadd :: "flt \<Rightarrow> flt \<Rightarrow> flt" where
  "dadd = add_fp round64"

definition dsub :: "flt \<Rightarrow> flt \<Rightarrow> flt" where
  "dsub a b = add_fp round64 a (fneg b)"

definition dmul :: "flt \<Rightarrow> flt \<Rightarrow> flt" where
  "dmul = mul_fp round64"

definition ddiv :: "flt \<Rightarrow> flt \<Rightarrow> flt" where
  "ddiv = div_fp round64"

fun to_float :: "flt \<Rightarrow> flt" where
  \<comment> \<open>the conversion \<^verbatim>\<open>(float)\<close> of a \<^verbatim>\<open>double\<close>\<close>
  "to_float (Finite a) = round32 a"
| "to_float x = x"

definition float_of_int :: "int \<Rightarrow> flt" where
  "float_of_int i = round32 (of_int i)"

definition double_of_int :: "int \<Rightarrow> flt" where
  "double_of_int i = round64 (of_int i)"

text \<open>The comparisons of C: each is false when an operand is a NaN, except \<^verbatim>\<open>!=\<close>.\<close>

fun flt_less :: "flt \<Rightarrow> flt \<Rightarrow> bool" where
  "flt_less (Finite a) (Finite b) = (a < b)"
| "flt_less NaN y = False"
| "flt_less x NaN = False"
| "flt_less x NInf = False"
| "flt_less PInf y = False"
| "flt_less x y = True"

definition flt_greater :: "flt \<Rightarrow> flt \<Rightarrow> bool" where
  "flt_greater a b = flt_less b a"

definition flt_eq :: "flt \<Rightarrow> flt \<Rightarrow> bool" where
  "flt_eq a b = (a \<noteq> NaN \<and> b \<noteq> NaN \<and> a = b)"

definition flt_neq :: "flt \<Rightarrow> flt \<Rightarrow> bool" where
  "flt_neq a b = (\<not> flt_eq a b)"

lemma power2_eq: "0 \<le> k \<Longrightarrow> power2 k = 2 ^ nat k"
proof (induction k rule: power2.induct)
  case (1 k)
  show ?case
  proof (cases "k \<le> 0")
    case True
    with "1.prems" show ?thesis by (subst power2.simps) simp
  next
    case False
    show ?thesis
    proof (cases "even k")
      case True
      from False True have h: "power2 (k div 2) = 2 ^ nat (k div 2)"
        using "1.IH"(1) by simp
      from True False have "nat k = nat (k div 2) + nat (k div 2)" by (elim evenE) auto
      then have "(2::rat) ^ nat k = 2 ^ nat (k div 2) * 2 ^ nat (k div 2)"
        by (simp add: power_add)
      with False True h show ?thesis by (subst power2.simps) (simp add: Let_def)
    next
      case odd: False
      from False odd have h: "power2 (k - 1) = 2 ^ nat (k - 1)"
        using "1.IH"(2) by simp
      from False have "nat k = Suc (nat (k - 1))" by simp
      then have "(2::rat) ^ nat k = 2 * 2 ^ nat (k - 1)" by simp
      with False odd h show ?thesis by (subst power2.simps) simp
    qed
  qed
qed

section \<open>Arrays, faults and loops\<close>

text \<open>
  An array is a list. An access outside the array is undefined behaviour in C; the model
  stops with a fault that names the array, the kind of access and the index.
\<close>

datatype access = Rd | Wr

datatype fault = OutOfBounds access string int | BadConversion | DivisionByZero | InvalidArgument

definition rd :: "string \<Rightarrow> 'a list \<Rightarrow> int \<Rightarrow> fault + 'a" where
  "rd name xs i = (if 0 \<le> i \<and> i < int (length xs) then Inr (xs ! nat i)
                   else Inl (OutOfBounds Rd name i))"

definition wr :: "string \<Rightarrow> 'a list \<Rightarrow> int \<Rightarrow> 'a \<Rightarrow> fault + 'a list" where
  "wr name xs i v = (if 0 \<le> i \<and> i < int (length xs) then Inr (xs[nat i := v])
                     else Inl (OutOfBounds Wr name i))"

definition bind :: "fault + 'a \<Rightarrow> ('a \<Rightarrow> fault + 'b) \<Rightarrow> fault + 'b" where
  "bind m f = (case m of Inl e \<Rightarrow> Inl e | Inr x \<Rightarrow> f x)"

text \<open>\<^verbatim>\<open>for (i = lo; i < hi; i++) body\<close>, the state threaded through the iterations.\<close>

function for_loop :: "int \<Rightarrow> int \<Rightarrow> (int \<Rightarrow> 's \<Rightarrow> fault + 's) \<Rightarrow> 's \<Rightarrow> fault + 's" where
  "for_loop i hi body s =
     (if i < hi then bind (body i s) (for_loop (i + 1) hi body) else Inr s)"
  by pat_completeness auto
termination
  by (relation "measure (\<lambda>(i, hi, body, s). nat (hi - i))") auto

declare for_loop.simps [simp del]

subsection \<open>Conversions and square root\<close>

definition INT_MAX :: int where
  "INT_MAX = 2147483647"

definition INT_MIN :: int where
  "INT_MIN = - 2147483648"

text \<open>
  The conversion of a floating-point value to \<^verbatim>\<open>int\<close> truncates towards zero; it is
  undefined for a NaN, an infinity and a value outside the range of \<^verbatim>\<open>int\<close>.
\<close>

fun int_of_flt :: "flt \<Rightarrow> fault + int" where
  "int_of_flt (Finite a) =
     (let n = (if 0 \<le> a then \<lfloor>a\<rfloor> else \<lceil>a\<rceil>)
      in if INT_MIN \<le> n \<and> n \<le> INT_MAX then Inr n else Inl BadConversion)"
| "int_of_flt x = Inl BadConversion"

fun rint :: "flt \<Rightarrow> flt" where
  "rint (Finite a) = Finite (of_int (round_even a))"
| "rint x = x"

fun flt_ceil :: "flt \<Rightarrow> flt" where
  "flt_ceil (Finite a) = Finite (of_int \<lceil>a\<rceil>)"
| "flt_ceil x = x"

fun flt_fabs :: "flt \<Rightarrow> flt" where
  "flt_fabs (Finite a) = Finite \<bar>a\<bar>"
| "flt_fabs NInf = PInf"
| "flt_fabs x = x"

function isqrt_bis :: "int \<Rightarrow> int \<Rightarrow> int \<Rightarrow> int" where
  "isqrt_bis n lo hi =
     (if lo + 1 < hi
      then (if ((lo + hi) div 2) * ((lo + hi) div 2) \<le> n
            then isqrt_bis n ((lo + hi) div 2) hi
            else isqrt_bis n lo ((lo + hi) div 2))
      else lo)"
  by pat_completeness auto
termination
  by (relation "measure (\<lambda>(n, lo, hi). nat (hi - lo))") auto

declare isqrt_bis.simps [simp del]

definition isqrt :: "int \<Rightarrow> int" where
  \<comment> \<open>the integer part of the square root of \<open>n \<ge> 0\<close>\<close>
  "isqrt n = isqrt_bis n 0 (n + 1)"

definition sqrt_fp :: "nat \<Rightarrow> int \<Rightarrow> rat \<Rightarrow> rat" where
  \<comment> \<open>the value of the format nearest to the square root of \<open>a > 0\<close>, ties to even\<close>
  "sqrt_fp p emin a =
     (let e = max emin (ilog2 a div 2);
          u = pow2 (e - (int p - 1));
          y = a / (u * u);
          n = isqrt \<lfloor>y\<rfloor>;
          h = (of_int n + 1 / 2) * (of_int n + 1 / 2)
      in of_int (if y < h then n else if h < y then n + 1 else if even n then n else n + 1) * u)"

fun dsqrt :: "flt \<Rightarrow> flt" where
  "dsqrt (Finite a) = (if a < 0 then NaN else if a = 0 then Finite 0
                       else Finite (sqrt_fp 53 (- 1022) a))"
| "dsqrt PInf = PInf"
| "dsqrt NInf = NaN"
| "dsqrt NaN = NaN"

text \<open>
  A \<^verbatim>\<open>long\<close> that is assigned to an \<^verbatim>\<open>int\<close>, or passed for an \<^verbatim>\<open>int\<close> parameter, keeps
  its low 32 bits, read in two's complement.
\<close>

definition int_of_long :: "int \<Rightarrow> int" where
  "int_of_long x = (x + 2147483648) mod 4294967296 - 2147483648"

text \<open>Integer division of C truncates towards zero; a zero divisor is undefined behaviour.\<close>

definition c_div :: "int \<Rightarrow> int \<Rightarrow> fault + int" where
  "c_div a b = (if b = 0 then Inl DivisionByZero else Inr (sgn a * sgn b * (\<bar>a\<bar> div \<bar>b\<bar>)))"

definition c_mod :: "int \<Rightarrow> int \<Rightarrow> fault + int" where
  "c_mod a b = (if b = 0 then Inl DivisionByZero else Inr (sgn a * (\<bar>a\<bar> mod \<bar>b\<bar>)))"

subsection \<open>Rules for results and faults\<close>

lemma bind_Inr_iff: "bind m f = Inr y \<longleftrightarrow> (\<exists>x. m = Inr x \<and> f x = Inr y)"
  by (cases m) (simp_all add: bind_def)

lemma bind_Inl_iff: "bind m f = Inl e \<longleftrightarrow> m = Inl e \<or> (\<exists>x. m = Inr x \<and> f x = Inl e)"
  by (cases m) (simp_all add: bind_def)

lemma rd_Inr_iff: "rd name xs i = Inr v \<longleftrightarrow> 0 \<le> i \<and> i < int (length xs) \<and> v = xs ! nat i"
  by (auto simp: rd_def)

lemma wr_Inr_iff: "wr name xs i v = Inr ys \<longleftrightarrow> 0 \<le> i \<and> i < int (length xs) \<and> ys = xs[nat i := v]"
  by (auto simp: wr_def)

lemma rd_Inl_iff: "rd name xs i = Inl e \<longleftrightarrow> \<not> (0 \<le> i \<and> i < int (length xs)) \<and> e = OutOfBounds Rd name i"
  by (auto simp: rd_def)

lemma wr_Inl_iff: "wr name xs i v = Inl e \<longleftrightarrow> \<not> (0 \<le> i \<and> i < int (length xs)) \<and> e = OutOfBounds Wr name i"
  by (auto simp: wr_def)


definition wp :: "fault + 'a \<Rightarrow> ('a \<Rightarrow> bool) \<Rightarrow> (fault \<Rightarrow> bool) \<Rightarrow> bool" where
  "wp m Q E = (case m of Inr x \<Rightarrow> Q x | Inl e \<Rightarrow> E e)"

lemma wp_Inr: "Q x \<Longrightarrow> wp (Inr x) Q E"
  by (simp add: wp_def)

lemma wp_Inl: "E e \<Longrightarrow> wp (Inl e) Q E"
  by (simp add: wp_def)

lemma wp_bind: "wp m (\<lambda>x. wp (f x) Q E) E \<Longrightarrow> wp (bind m f) Q E"
  by (cases m) (simp_all add: wp_def bind_def)

lemma wp_if: "(c \<Longrightarrow> wp a Q E) \<Longrightarrow> (\<not> c \<Longrightarrow> wp b Q E) \<Longrightarrow> wp (if c then a else b) Q E"
  by simp

lemma wp_rd:
  "(0 \<le> i \<Longrightarrow> i < int (length xs) \<Longrightarrow> Q (xs ! nat i)) \<Longrightarrow>
   (\<not> (0 \<le> i \<and> i < int (length xs)) \<Longrightarrow> E (OutOfBounds Rd name i)) \<Longrightarrow>
   wp (rd name xs i) Q E"
  by (simp add: wp_def rd_def)

lemma wp_wr:
  "(0 \<le> i \<Longrightarrow> i < int (length xs) \<Longrightarrow> Q (xs[nat i := v])) \<Longrightarrow>
   (\<not> (0 \<le> i \<and> i < int (length xs)) \<Longrightarrow> E (OutOfBounds Wr name i)) \<Longrightarrow>
   wp (wr name xs i v) Q E"
  by (simp add: wp_def wr_def)

lemma wp_int_of_flt:
  "(\<And>n. INT_MIN \<le> n \<Longrightarrow> n \<le> INT_MAX \<Longrightarrow> Q n) \<Longrightarrow> E BadConversion \<Longrightarrow> wp (int_of_flt x) Q E"
  by (cases x) (simp_all add: wp_def Let_def)

lemma wp_weaken:
  "wp m Q' E' \<Longrightarrow> (\<And>x. Q' x \<Longrightarrow> Q x) \<Longrightarrow> (\<And>e. E' e \<Longrightarrow> E e) \<Longrightarrow> wp m Q E"
  by (cases m) (simp_all add: wp_def)

lemma wp_Inr_D: "wp m Q E \<Longrightarrow> m = Inr x \<Longrightarrow> Q x"
  by (simp add: wp_def)

lemma wp_Inl_D: "wp m Q E \<Longrightarrow> m = Inl e \<Longrightarrow> E e"
  by (simp add: wp_def)

lemma wp_total: "wp m Q (\<lambda>e. False) \<Longrightarrow> \<exists>x. m = Inr x \<and> Q x"
  by (cases m) (simp_all add: wp_def)

lemma wp_for_loop:
  assumes "I lo s"
    and "\<And>i s. lo \<le> i \<Longrightarrow> i < hi \<Longrightarrow> I i s \<Longrightarrow> wp (body i s) (I (i + 1)) E"
    and "\<And>s. I (max lo hi) s \<Longrightarrow> Q s"
  shows "wp (for_loop lo hi body s) Q E"
  using assms
proof (induction lo hi body s rule: for_loop.induct)
  case (1 i hi body s)
  show ?case
  proof (cases "i < hi")
    case True
    have b: "wp (body i s) (I (i + 1)) E" using "1.prems"(2)[OF _ True "1.prems"(1)] by simp
    have r: "wp (for_loop (i + 1) hi body s1) Q E" if "I (i + 1) s1" for s1
    proof (rule "1.IH"[OF True that])
      show "wp (body j t) (I (j + 1)) E" if "i + 1 \<le> j" "j < hi" "I j t" for j t
        using "1.prems"(2)[of j t] that by simp
      show "Q t" if "I (max (i + 1) hi) t" for t
        using "1.prems"(3)[of t] that True by (simp add: max_def)
    qed
    have "wp (bind (body i s) (for_loop (i + 1) hi body)) Q E"
      by (rule wp_bind, rule wp_weaken[OF b]) (use r in auto)
    with True show ?thesis by (subst for_loop.simps) simp
  next
    case False
    with "1.prems"(1,3) show ?thesis by (subst for_loop.simps) (simp add: max_def wp_Inr)
  qed
qed

lemmas wp_intros = wp_bind wp_Inr wp_Inl wp_if wp_rd wp_wr wp_int_of_flt

lemma for_loop_total:
  assumes "P lo s"
    and "\<And>i s. lo \<le> i \<Longrightarrow> i < hi \<Longrightarrow> P i s \<Longrightarrow> \<exists>s'. body i s = Inr s' \<and> P (i + 1) s'"
  shows "\<exists>s'. for_loop lo hi body s = Inr s' \<and> P (max lo hi) s'"
  using assms
proof (induction lo hi body s rule: for_loop.induct)
  case (1 i hi body s)
  show ?case
  proof (cases "i < hi")
    case True
    from "1.prems"(2)[OF _ True "1.prems"(1)] obtain s1 where b: "body i s = Inr s1" and p: "P (i + 1) s1"
      by auto
    have "\<exists>s'. for_loop (i + 1) hi body s1 = Inr s' \<and> P (max (i + 1) hi) s'"
      using "1.IH"[OF True p] "1.prems"(2) by simp
    then obtain s' where "for_loop (i + 1) hi body s1 = Inr s'" "P (max (i + 1) hi) s'" by auto
    with True b show ?thesis
      by (subst for_loop.simps) (auto simp: bind_def max_def)
  next
    case False
    with "1.prems"(1) show ?thesis by (subst for_loop.simps) (simp add: max_def)
  qed
qed

lemma for_loop_pointwise:
  assumes body: "\<And>i s. 0 \<le> i \<Longrightarrow> i < int n \<Longrightarrow> length s = n \<Longrightarrow>
                   body i s = Inr (s[nat i := g (nat i) (s ! nat i)])"
    and len: "length s0 = n"
  shows "for_loop 0 (int n) body s0 = Inr (map (\<lambda>j. g j (s0 ! j)) [0..<n])"
proof -
  define P where "P = (\<lambda>(i::int) s. length s = n \<and>
      (\<forall>j < n. s ! j = (if j < nat i then g j (s0 ! j) else s0 ! j)))"
  have P0: "P 0 s0" using len by (simp add: P_def)
  have step: "\<exists>s'. body i s = Inr s' \<and> P (i + 1) s'"
    if i: "0 \<le> i" "i < int n" and p: "P i s" for i s
  proof -
    have ls: "length s = n" using p by (simp add: P_def)
    have k: "nat i < n" "nat (i + 1) = Suc (nat i)" using i by auto
    have "P (i + 1) (s[nat i := g (nat i) (s ! nat i)])"
      unfolding P_def
    proof (intro conjI allI impI)
      fix j assume j: "j < n"
      show "s[nat i := g (nat i) (s ! nat i)] ! j = (if j < nat (i + 1) then g j (s0 ! j) else s0 ! j)"
      proof (cases "j = nat i")
        case True
        with p j have "s ! j = s0 ! j" by (simp add: P_def)
        with True j ls k show ?thesis by simp
      next
        case False
        then have "(j < nat (i + 1)) = (j < nat i)" using k by auto
        with False p j show ?thesis by (simp add: P_def)
      qed
    qed (simp add: ls)
    with body[OF i ls] show ?thesis by blast
  qed
  from for_loop_total[where P = P and body = body, OF P0 step, of "int n"]
  obtain s' where r: "for_loop 0 (int n) body s0 = Inr s'" and p: "P (max 0 (int n)) s'"
    by blast
  have "s' = map (\<lambda>j. g j (s0 ! j)) [0..<n]"
    using p by (auto simp: P_def list_eq_iff_nth_eq)
  with r show ?thesis by simp
qed

section \<open>Mask utilities (mask.cpp)\<close>

record detectorRawFormat_t =
  asic_nx :: int
  asic_ny :: int
  nasics_x :: int
  nasics_y :: int
  pix_nx :: int
  pix_ny :: int
  pix_nn :: int

definition mergeMaskIntoData :: "flt list \<Rightarrow> int list \<Rightarrow> detectorRawFormat_t \<Rightarrow> fault + flt list" where
  "mergeMaskIntoData data msk detectorRawFormat =
     for_loop 0 (pix_nn detectorRawFormat)
       (\<lambda>i data. bind (rd ''mask'' msk i) (\<lambda>m.
          if m \<noteq> 0 then wr ''data'' data i (fneg FLT_MAX) else Inr data))
       data"

definition getMaskFromMergedMaskInData :: "flt list \<Rightarrow> int list \<Rightarrow> detectorRawFormat_t \<Rightarrow> fault + int list" where
  "getMaskFromMergedMaskInData data msk detectorRawFormat =
     for_loop 0 (pix_nn detectorRawFormat)
       (\<lambda>i msk. bind (rd ''data'' data i) (\<lambda>d.
          if isfinite d then wr ''mask'' msk i 0 else wr ''mask'' msk i 1))
       msk"


definition fmt1 :: detectorRawFormat_t where
  "fmt1 = \<lparr>asic_nx = 1, asic_ny = 1, nasics_x = 1, nasics_y = 1, pix_nx = 1, pix_ny = 1, pix_nn = 1\<rparr>"

lemma isfinite_neg_FLT_MAX: "isfinite (fneg FLT_MAX)"
  by (simp add: FLT_MAX_def)

lemma mergeMaskIntoData_result:
  assumes len: "pix_nn fmt = int (length data)" "length msk = length data"
  shows "mergeMaskIntoData data msk fmt =
           Inr (map (\<lambda>j. if msk ! j \<noteq> 0 then fneg FLT_MAX else data ! j) [0..<length data])"
  unfolding mergeMaskIntoData_def len(1)
proof (rule for_loop_pointwise)
  fix i :: int and s :: "flt list"
  assume i: "0 \<le> i" "i < int (length data)" and ls: "length s = length data"
  then show "bind (rd ''mask'' msk i) (\<lambda>m. if m \<noteq> 0 then wr ''data'' s i (fneg FLT_MAX) else Inr s) =
      Inr (s[nat i := if msk ! nat i \<noteq> 0 then fneg FLT_MAX else s ! nat i])"
    using len by (simp add: rd_def wr_def bind_def)
qed simp

lemma getMaskFromMergedMaskInData_result:
  assumes len: "pix_nn fmt = int (length out)" "length data = length out"
  shows "getMaskFromMergedMaskInData data out fmt =
           Inr (map (\<lambda>j. if isfinite (data ! j) then 0 else 1) [0..<length out])"
  unfolding getMaskFromMergedMaskInData_def len(1)
proof (rule for_loop_pointwise[where g = "\<lambda>j x. if isfinite (data ! j) then 0 else 1"])
  fix i :: int and s :: "int list"
  assume i: "0 \<le> i" "i < int (length out)" and ls: "length s = length out"
  then show "bind (rd ''data'' data i) (\<lambda>d. if isfinite d then wr ''mask'' s i 0 else wr ''mask'' s i 1) =
      Inr (s[nat i := if isfinite (data ! nat i) then 0 else 1])"
    using len by (simp add: rd_def wr_def bind_def)
qed simp

text \<open>
  C1 (mask round trip). The claim: writing the sentinel \<^verbatim>\<open>-FLT_MAX\<close> at every bad
  position of a dense mask (\<open>mergeMaskIntoData\<close>) and reading a mask back from the data
  (\<open>getMaskFromMergedMaskInData\<close>) recovers the mask, when the data is finite at the good
  positions. The code reads the mask back with \<^verbatim>\<open>isfinite\<close>, and the sentinel is a
  finite number: for every such mask and data the mask read back marks every pixel as
  good, so no bad pixel is recovered.
\<close>

theorem mask_roundtrip_all_good:
  assumes len: "pix_nn fmt = int (length data)" "length msk = length data" "length out = length data"
    and fin: "\<forall>i < length data. msk ! i = 0 \<longrightarrow> isfinite (data ! i)"
  shows "\<exists>merged. mergeMaskIntoData data msk fmt = Inr merged \<and>
           getMaskFromMergedMaskInData merged out fmt = Inr (replicate (length data) 0)"
proof -
  let ?merged = "map (\<lambda>j. if msk ! j \<noteq> 0 then fneg FLT_MAX else data ! j) [0..<length data]"
  have m: "mergeMaskIntoData data msk fmt = Inr ?merged"
    by (rule mergeMaskIntoData_result[OF len(1,2)])
  have "getMaskFromMergedMaskInData ?merged out fmt =
      Inr (map (\<lambda>j. if isfinite (?merged ! j) then 0 else 1) [0..<length out])"
    by (rule getMaskFromMergedMaskInData_result) (use len in simp_all)
  moreover have "map (\<lambda>j. if isfinite (?merged ! j) then 0 else 1) [0..<length out] = replicate (length data) (0::int)"
  proof (rule nth_equalityI)
    fix j assume "j < length (map (\<lambda>j. if isfinite (?merged ! j) then 0 else 1) [0..<length out])"
    then have j: "j < length data" using len by simp
    then have "isfinite (?merged ! j)"
      using fin by (cases "msk ! j = 0") (simp_all add: isfinite_neg_FLT_MAX)
    with j len show "map (\<lambda>j. if isfinite (?merged ! j) then 0 else 1) [0..<length out] ! j = replicate (length data) (0::int) ! j"
      by simp
  qed (use len in simp)
  ultimately show ?thesis using m by simp
qed

theorem mask_roundtrip_all_good_witness:
  "mergeMaskIntoData [Finite 0] [1] fmt1 = Inr [fneg FLT_MAX] \<and>
   getMaskFromMergedMaskInData [fneg FLT_MAX] [1] fmt1 = Inr [0]"
  using mask_roundtrip_all_good[of fmt1 "[Finite 0]" "[1]" "[1]"]
    mergeMaskIntoData_result[of fmt1 "[Finite 0]" "[1]"]
  by (simp add: fmt1_def)

section \<open>Radial peak finder (peakfinder8.cpp)\<close>

text \<open>
  Integers of the program are unbounded integers here: the model follows the code as long
  as no arithmetic operation of the run overflows. The \<^verbatim>\<open>long\<close> arguments of
  \<^verbatim>\<open>peakfinder8\<close> are narrowed with \<open>int_of_long\<close> where the code stores them in an
  \<^verbatim>\<open>int\<close>. An allocation succeeds when its size is not negative.
  The arrays whose pointers a C function receives one by one are passed as the structure
  that holds them (\<open>rstats\<close>, \<open>pkdata\<close>, \<open>pfinter\<close>).
\<close>

record tPeakList =
  nPeaks :: int
  nPeaks_max :: int
  peak_maxintensity :: "flt list"
  peak_totalintensity :: "flt list"
  peak_sigma :: "flt list"
  peak_snr :: "flt list"
  peak_npix :: "flt list"
  peak_com_x :: "flt list"
  peak_com_y :: "flt list"
  peak_com_index :: "int list"

record radial_stats =
  roffset :: "flt list"
  rthreshold :: "flt list"
  rsigma :: "flt list"
  rcount :: "int list"
  n_rad_bins :: int

record peakfinder_intern_data =
  pix_in_peak_map :: "int list"
  infs :: "int list"
  inss :: "int list"
  peak_pixels :: "int list"

record peakfinder_peak_data =
  npix :: "int list"
  com_fs :: "flt list"
  com_ss :: "flt list"
  com_index :: "int list"
  tot_i :: "flt list"
  max_i :: "flt list"
  sigma :: "flt list"
  snr :: "flt list"

definition compute_r_sigma :: "flt list \<Rightarrow> int list \<Rightarrow> flt list \<Rightarrow> int \<Rightarrow> fault + flt" where
  "compute_r_sigma rsigma_a rcount_a roffset_a i =
     bind (rd ''rsigma'' rsigma_a i) (\<lambda>sg.
     bind (rd ''rcount'' rcount_a i) (\<lambda>n.
     bind (rd ''roffset'' roffset_a i) (\<lambda>off.
       Inr (dsqrt (fsub (fdiv sg (float_of_int n))
                        (fmul (fdiv off (float_of_int n)) (fdiv off (float_of_int n))))))))"

definition update_radial_stats :: "radial_stats \<Rightarrow> flt \<Rightarrow> int \<Rightarrow> fault + radial_stats" where
  "update_radial_stats rstats val curr_radius =
     bind (rd ''roffset'' (roffset rstats) curr_radius) (\<lambda>off.
     bind (wr ''roffset'' (roffset rstats) curr_radius (fadd off val)) (\<lambda>roffset'.
     bind (rd ''rsigma'' (rsigma rstats) curr_radius) (\<lambda>sg.
     bind (wr ''rsigma'' (rsigma rstats) curr_radius (fadd sg (fmul val val))) (\<lambda>rsigma'.
     bind (rd ''rcount'' (rcount rstats) curr_radius) (\<lambda>n.
     bind (wr ''rcount'' (rcount rstats) curr_radius (n + 1)) (\<lambda>rcount'.
       Inr (rstats\<lparr>roffset := roffset', rsigma := rsigma', rcount := rcount'\<rparr>)))))))"

definition fill_radial_bins_pixel ::
    "flt list \<Rightarrow> flt list \<Rightarrow> int list \<Rightarrow> int \<Rightarrow> radial_stats \<Rightarrow> fault + radial_stats" where
  "fill_radial_bins_pixel data r_map msk pidx rstats =
     bind (rd ''mask'' msk pidx) (\<lambda>m.
       if m \<noteq> 0 then
         bind (rd ''r_map'' r_map pidx) (\<lambda>r.
         bind (int_of_flt (rint r)) (\<lambda>curr_r.
         bind (rd ''data'' data pidx) (\<lambda>val.
         bind (rd ''rthreshold'' (rthreshold rstats) curr_r) (\<lambda>thr.
           if flt_less val thr then update_radial_stats rstats val curr_r
           else Inr rstats))))
       else Inr rstats)"

definition fill_radial_bins ::
    "flt list \<Rightarrow> int \<Rightarrow> int \<Rightarrow> flt list \<Rightarrow> int list \<Rightarrow> radial_stats \<Rightarrow> fault + radial_stats" where
  "fill_radial_bins data w h r_map msk rstats =
     for_loop 0 h (\<lambda>iss.
       for_loop 0 w (\<lambda>ifs. fill_radial_bins_pixel data r_map msk (iss * w + ifs))) rstats"

definition compute_radial_stats_bin :: "flt \<Rightarrow> flt \<Rightarrow> int \<Rightarrow> radial_stats \<Rightarrow> fault + radial_stats" where
  "compute_radial_stats_bin min_snr acd_threshold ri rstats =
     bind (rd ''rcount'' (rcount rstats) ri) (\<lambda>n.
       if n = 0 then
         bind (wr ''roffset'' (roffset rstats) ri (Finite 0)) (\<lambda>roffset'.
         bind (wr ''rsigma'' (rsigma rstats) ri (Finite 0)) (\<lambda>rsigma'.
         bind (wr ''rthreshold'' (rthreshold rstats) ri (to_float (Finite 1000000000))) (\<lambda>rthreshold'.
           Inr (rstats\<lparr>roffset := roffset', rsigma := rsigma', rthreshold := rthreshold'\<rparr>))))
       else
         bind (rd ''roffset'' (roffset rstats) ri) (\<lambda>off.
         let this_offset = fdiv off (float_of_int n) in
         bind (compute_r_sigma (rsigma rstats) (rcount rstats) (roffset rstats) ri) (\<lambda>sg.
         let this_sigma = to_float sg in
         bind (wr ''roffset'' (roffset rstats) ri this_offset) (\<lambda>roffset'.
         bind (wr ''rsigma'' (rsigma rstats) ri this_sigma) (\<lambda>rsigma'.
         let thr = fadd this_offset (fmul min_snr this_sigma) in
         bind (wr ''rthreshold'' (rthreshold rstats) ri
                 (if flt_less thr acd_threshold then acd_threshold else thr)) (\<lambda>rthreshold'.
           Inr (rstats\<lparr>roffset := roffset', rsigma := rsigma', rthreshold := rthreshold'\<rparr>)))))))"

definition compute_radial_stats :: "radial_stats \<Rightarrow> int \<Rightarrow> flt \<Rightarrow> flt \<Rightarrow> fault + radial_stats" where
  "compute_radial_stats rstats num_rad_bins min_snr acd_threshold =
     for_loop 0 num_rad_bins (compute_radial_stats_bin min_snr acd_threshold) rstats"

lemma round32_1e9: "round32 1000000000 = Finite 1000000000"
  by code_simp

definition empty_bin_inv :: "radial_stats \<Rightarrow> int \<Rightarrow> radial_stats \<Rightarrow> bool" where
  "empty_bin_inv rstats0 i rstats \<longleftrightarrow>
     rcount rstats = rcount rstats0 \<and>
     length (roffset rstats) = length (roffset rstats0) \<and>
     length (rsigma rstats) = length (rsigma rstats0) \<and>
     length (rthreshold rstats) = length (rthreshold rstats0) \<and>
     (\<forall>j. 0 \<le> j \<and> j < i \<and> rcount rstats0 ! nat j = 0 \<longrightarrow>
        roffset rstats ! nat j = Finite 0 \<and> rsigma rstats ! nat j = Finite 0 \<and>
        rthreshold rstats ! nat j = Finite 1000000000)"

lemma empty_bin_inv_step:
  assumes inv: "empty_bin_inv rstats0 i rstats" and i: "0 \<le> i"
    and b: "nat i < length (roffset rstats)" "nat i < length (rsigma rstats)" "nat i < length (rthreshold rstats)"
    and z: "rcount rstats0 ! nat i = 0 \<Longrightarrow> a = Finite 0 \<and> b = Finite 0 \<and> c = Finite 1000000000"
  shows "empty_bin_inv rstats0 (i + 1)
           (rstats\<lparr>roffset := (roffset rstats)[nat i := a], rsigma := (rsigma rstats)[nat i := b],
                   rthreshold := (rthreshold rstats)[nat i := c]\<rparr>)"
  unfolding empty_bin_inv_def
proof (intro conjI allI impI)
  fix j assume j: "0 \<le> j \<and> j < i + 1 \<and> rcount rstats0 ! nat j = 0"
  show "roffset (rstats\<lparr>roffset := (roffset rstats)[nat i := a], rsigma := (rsigma rstats)[nat i := b],
                   rthreshold := (rthreshold rstats)[nat i := c]\<rparr>) ! nat j = Finite 0"
  proof (cases "j = i")
    case True with j z b show ?thesis by simp
  next
    case False
    with j i have "j < i" "nat j \<noteq> nat i" by auto
    with j inv show ?thesis by (simp add: empty_bin_inv_def)
  qed
  show "rsigma (rstats\<lparr>roffset := (roffset rstats)[nat i := a], rsigma := (rsigma rstats)[nat i := b],
                   rthreshold := (rthreshold rstats)[nat i := c]\<rparr>) ! nat j = Finite 0"
  proof (cases "j = i")
    case True with j z b show ?thesis by simp
  next
    case False
    with j i have "j < i" "nat j \<noteq> nat i" by auto
    with j inv show ?thesis by (simp add: empty_bin_inv_def)
  qed
  show "rthreshold (rstats\<lparr>roffset := (roffset rstats)[nat i := a], rsigma := (rsigma rstats)[nat i := b],
                   rthreshold := (rthreshold rstats)[nat i := c]\<rparr>) ! nat j = Finite 1000000000"
  proof (cases "j = i")
    case True with j z b show ?thesis by simp
  next
    case False
    with j i have "j < i" "nat j \<noteq> nat i" by auto
    with j inv show ?thesis by (simp add: empty_bin_inv_def)
  qed
qed (use inv in \<open>simp_all add: empty_bin_inv_def\<close>)

lemma compute_radial_stats_bin_step:
  assumes inv: "empty_bin_inv rstats0 i rstats" and i: "0 \<le> i" "i < num_rad_bins"
    and len: "num_rad_bins \<le> int (length (rcount rstats0))" "num_rad_bins \<le> int (length (roffset rstats0))"
      "num_rad_bins \<le> int (length (rsigma rstats0))" "num_rad_bins \<le> int (length (rthreshold rstats0))"
  shows "\<exists>rstats'. compute_radial_stats_bin min_snr acd_threshold i rstats = Inr rstats' \<and>
           empty_bin_inv rstats0 (i + 1) rstats'"
proof -
  have c: "rcount rstats = rcount rstats0" using inv by (simp add: empty_bin_inv_def)
  have b: "i < int (length (rcount rstats))" "i < int (length (roffset rstats))"
      "i < int (length (rsigma rstats))" "i < int (length (rthreshold rstats))"
    using inv i len by (auto simp: empty_bin_inv_def)
  then have b': "nat i < length (roffset rstats)" "nat i < length (rsigma rstats)" "nat i < length (rthreshold rstats)"
    using i by auto
  show ?thesis
  proof (cases "rcount rstats ! nat i = 0")
    case True
    have "compute_radial_stats_bin min_snr acd_threshold i rstats =
        Inr (rstats\<lparr>roffset := (roffset rstats)[nat i := Finite 0], rsigma := (rsigma rstats)[nat i := Finite 0],
                   rthreshold := (rthreshold rstats)[nat i := Finite 1000000000]\<rparr>)"
      using True i b by (simp add: compute_radial_stats_bin_def rd_def wr_def bind_def round32_1e9)
    moreover have "empty_bin_inv rstats0 (i + 1) (rstats\<lparr>roffset := (roffset rstats)[nat i := Finite 0], rsigma := (rsigma rstats)[nat i := Finite 0],
                   rthreshold := (rthreshold rstats)[nat i := Finite 1000000000]\<rparr>)"
      by (rule empty_bin_inv_step[OF inv i(1) b']) simp
    ultimately show ?thesis by blast
  next
    case False
    then have nz: "rcount rstats0 ! nat i \<noteq> 0" using c by simp
    define n where "n = rcount rstats ! nat i"
    define a where "a = fdiv (roffset rstats ! nat i) (float_of_int n)"
    define b where "b = to_float (dsqrt (fsub (fdiv (rsigma rstats ! nat i) (float_of_int n))
                        (fmul (fdiv (roffset rstats ! nat i) (float_of_int n))
                              (fdiv (roffset rstats ! nat i) (float_of_int n)))))"
    define c where "c = (if flt_less (fadd a (fmul min_snr b)) acd_threshold then acd_threshold
                         else fadd a (fmul min_snr b))"
    have "compute_radial_stats_bin min_snr acd_threshold i rstats =
        Inr (rstats\<lparr>roffset := (roffset rstats)[nat i := a], rsigma := (rsigma rstats)[nat i := b],
                   rthreshold := (rthreshold rstats)[nat i := c]\<rparr>)"
      using False i b
      by (simp add: compute_radial_stats_bin_def compute_r_sigma_def rd_def wr_def bind_def Let_def
            a_def b_def c_def n_def)
    moreover have "empty_bin_inv rstats0 (i + 1) (rstats\<lparr>roffset := (roffset rstats)[nat i := a], rsigma := (rsigma rstats)[nat i := b],
                   rthreshold := (rthreshold rstats)[nat i := c]\<rparr>)"
      by (rule empty_bin_inv_step[OF inv i(1) b']) (use nz in simp)
    ultimately show ?thesis by blast
  qed
qed


lemma compute_radial_stats_zero_count:
  assumes len: "num_rad_bins \<le> int (length (rcount rstats))" "num_rad_bins \<le> int (length (roffset rstats))"
      "num_rad_bins \<le> int (length (rsigma rstats))" "num_rad_bins \<le> int (length (rthreshold rstats))"
  shows "\<exists>rstats'. compute_radial_stats rstats num_rad_bins min_snr acd_threshold = Inr rstats' \<and>
           (\<forall>ri. 0 \<le> ri \<and> ri < num_rad_bins \<and> rcount rstats ! nat ri = 0 \<longrightarrow>
              roffset rstats' ! nat ri = Finite 0 \<and> rsigma rstats' ! nat ri = Finite 0 \<and>
              rthreshold rstats' ! nat ri = Finite 1000000000)"
proof -
  have "empty_bin_inv rstats 0 rstats" unfolding empty_bin_inv_def by auto
  from for_loop_total[where P = "empty_bin_inv rstats" and body = "compute_radial_stats_bin min_snr acd_threshold",
      OF this compute_radial_stats_bin_step[OF _ _ _ len], of num_rad_bins]
  obtain rstats' where r: "for_loop 0 num_rad_bins (compute_radial_stats_bin min_snr acd_threshold) rstats = Inr rstats'"
    and p: "empty_bin_inv rstats (max 0 num_rad_bins) rstats'" by blast
  have "\<forall>ri. 0 \<le> ri \<and> ri < num_rad_bins \<and> rcount rstats ! nat ri = 0 \<longrightarrow>
              roffset rstats' ! nat ri = Finite 0 \<and> rsigma rstats' ! nat ri = Finite 0 \<and>
              rthreshold rstats' ! nat ri = Finite 1000000000"
  proof (intro allI impI)
    fix ri assume a: "0 \<le> ri \<and> ri < num_rad_bins \<and> rcount rstats ! nat ri = 0"
    then have "ri < max 0 num_rad_bins" by simp
    with a p show "roffset rstats' ! nat ri = Finite 0 \<and> rsigma rstats' ! nat ri = Finite 0 \<and>
              rthreshold rstats' ! nat ri = Finite 1000000000"
      unfolding empty_bin_inv_def by blast
  qed
  with r show ?thesis by (simp add: compute_radial_stats_def)
qed

subsection \<open>One iteration of the radial statistics\<close>

definition zero_radial_stats :: "int \<Rightarrow> radial_stats \<Rightarrow> fault + radial_stats" where
  \<comment> \<open>the body of the loop of \<^verbatim>\<open>peakfinder8\<close> that clears the sums and the counts\<close>
  "zero_radial_stats i rs =
     bind (wr ''roffset'' (roffset rs) i (Finite 0)) (\<lambda>roffset'.
     bind (wr ''rsigma'' (rsigma rs) i (Finite 0)) (\<lambda>rsigma'.
     bind (wr ''rcount'' (rcount rs) i 0) (\<lambda>rcount'.
       Inr (rs\<lparr>roffset := roffset', rsigma := rsigma', rcount := rcount'\<rparr>))))"

definition radial_stats_iteration ::
    "flt list \<Rightarrow> int \<Rightarrow> int \<Rightarrow> flt list \<Rightarrow> int list \<Rightarrow> int \<Rightarrow> flt \<Rightarrow> flt \<Rightarrow> radial_stats \<Rightarrow>
     fault + radial_stats" where
  \<comment> \<open>the body of the loop over \<^verbatim>\<open>it_counter\<close> of \<^verbatim>\<open>peakfinder8\<close>\<close>
  "radial_stats_iteration data w h pix_r msk num_rad_bins hitfinderMinSNR ADCthresh rs =
     bind (for_loop 0 num_rad_bins zero_radial_stats rs) (\<lambda>rs1.
     bind (fill_radial_bins data w h pix_r msk rs1) (\<lambda>rs2.
       compute_radial_stats rs2 num_rad_bins hitfinderMinSNR ADCthresh))"

definition contributes :: "flt list \<Rightarrow> flt list \<Rightarrow> int list \<Rightarrow> radial_stats \<Rightarrow> int \<Rightarrow> int \<Rightarrow> bool" where
  \<comment> \<open>the test of \<^verbatim>\<open>fill_radial_bins\<close>: the pixel \<open>pidx\<close> is added to the sums of the bin \<open>ri\<close>\<close>
  "contributes data r_map msk rs ri pidx \<longleftrightarrow>
     msk ! nat pidx \<noteq> 0 \<and> int_of_flt (rint (r_map ! nat pidx)) = Inr ri \<and>
     flt_less (data ! nat pidx) (rthreshold rs ! nat ri)"

definition radial_inputs_ok :: "flt list \<Rightarrow> flt list \<Rightarrow> int list \<Rightarrow> int \<Rightarrow> int \<Rightarrow> bool" where
  \<comment> \<open>the arrays hold \<open>num_pix\<close> pixels and the radius of each pixel that the mask keeps is
      the number of a bin\<close>
  "radial_inputs_ok data r_map msk num_pix num_rad_bins \<longleftrightarrow>
     num_pix \<le> int (length data) \<and> num_pix \<le> int (length r_map) \<and> num_pix \<le> int (length msk) \<and>
     (\<forall>pidx \<in> {0..<num_pix}. msk ! nat pidx \<noteq> 0 \<longrightarrow>
        (case int_of_flt (rint (r_map ! nat pidx)) of
           Inr k \<Rightarrow> 0 \<le> k \<and> k < num_rad_bins | Inl e \<Rightarrow> False))"

subsection \<open>The radial statistics of the newer copy\<close>

text \<open>
  \<^verbatim>\<open>src/src/cython/peakfinder8.cpp\<close> keeps the statistics in the class \<^verbatim>\<open>RadialStats\<close>,
  which has a lower threshold too. Its member functions take the object as their last
  argument here, and the fields of \<^verbatim>\<open>img_data\<close> and \<^verbatim>\<open>options\<close> that they read as
  arguments.
\<close>

record RadialStats = radial_stats +
  lthreshold :: "flt list"

definition FLT_MIN :: flt where
  "FLT_MIN = Finite (1 / 2 ^ 126)"

definition flt_ge :: "flt \<Rightarrow> flt \<Rightarrow> bool" where
  "flt_ge a b = (flt_greater a b \<or> flt_eq a b)"

definition RadialStats_fill_radial_bins_pixel ::
    "flt list \<Rightarrow> flt list \<Rightarrow> int list \<Rightarrow> int \<Rightarrow> RadialStats \<Rightarrow> fault + RadialStats" where
  \<comment> \<open>the body of the loop of \<^verbatim>\<open>RadialStats::fill_radial_bins\<close>\<close>
  "RadialStats_fill_radial_bins_pixel data pix_radius msk pidx rs =
     bind (rd ''mask'' msk pidx) (\<lambda>m.
       if m \<noteq> 0 then
         bind (rd ''pix_radius'' pix_radius pidx) (\<lambda>r.
         bind (int_of_flt (rint r)) (\<lambda>curr_r.
         bind (rd ''data'' data pidx) (\<lambda>val.
         bind (rd ''rthreshold'' (rthreshold rs) curr_r) (\<lambda>thr.
           if flt_less val thr then
             bind (rd ''lthreshold'' (lthreshold rs) curr_r) (\<lambda>lthr.
               if flt_greater val lthr then
                 bind (rd ''roffset'' (roffset rs) curr_r) (\<lambda>off.
                 bind (wr ''roffset'' (roffset rs) curr_r (fadd off val)) (\<lambda>roffset'.
                 bind (rd ''rsigma'' (rsigma rs) curr_r) (\<lambda>sg.
                 bind (wr ''rsigma'' (rsigma rs) curr_r (fadd sg (fmul val val))) (\<lambda>rsigma'.
                 bind (rd ''rcount'' (rcount rs) curr_r) (\<lambda>n.
                 bind (wr ''rcount'' (rcount rs) curr_r (n + 1)) (\<lambda>rcount'.
                   Inr (rs\<lparr>roffset := roffset', rsigma := rsigma', rcount := rcount'\<rparr>)))))))
               else Inr rs)
           else Inr rs))))
       else Inr rs)"

definition RadialStats_fill_radial_bins ::
    "flt list \<Rightarrow> int \<Rightarrow> flt list \<Rightarrow> int list \<Rightarrow> RadialStats \<Rightarrow> fault + RadialStats" where
  "RadialStats_fill_radial_bins data num_pix pix_radius msk rs =
     for_loop 0 num_pix (RadialStats_fill_radial_bins_pixel data pix_radius msk) rs"

definition RadialStats_compute_bin :: "flt \<Rightarrow> flt \<Rightarrow> int \<Rightarrow> RadialStats \<Rightarrow> fault + RadialStats" where
  \<comment> \<open>the body of the loop over \<^verbatim>\<open>ri\<close> of \<^verbatim>\<open>RadialStats::compute_bins_and_stats\<close>\<close>
  "RadialStats_compute_bin MinSNR ADCthresh ri rs =
     bind (rd ''rcount'' (rcount rs) ri) (\<lambda>n.
       if n = 0 then
         bind (wr ''roffset'' (roffset rs) ri (Finite 0)) (\<lambda>roffset'.
         bind (wr ''rsigma'' (rsigma rs) ri (Finite 0)) (\<lambda>rsigma'.
         bind (wr ''rthreshold'' (rthreshold rs) ri FLT_MAX) (\<lambda>rthreshold'.
         bind (wr ''lthreshold'' (lthreshold rs) ri FLT_MIN) (\<lambda>lthreshold'.
           Inr (rs\<lparr>roffset := roffset', rthreshold := rthreshold', rsigma := rsigma',
                   lthreshold := lthreshold'\<rparr>)))))
       else
         bind (rd ''roffset'' (roffset rs) ri) (\<lambda>off.
         let ri_offset = fdiv off (float_of_int n) in
         bind (rd ''rsigma'' (rsigma rs) ri) (\<lambda>sg.
         let ri_sigma0 = fsub (fdiv sg (float_of_int n)) (fmul ri_offset ri_offset);
             ri_sigma = (if flt_ge ri_sigma0 (Finite 0) then to_float (dsqrt ri_sigma0)
                         else ri_sigma0)
         in
         bind (wr ''roffset'' (roffset rs) ri ri_offset) (\<lambda>roffset'.
         bind (wr ''rsigma'' (rsigma rs) ri ri_sigma) (\<lambda>rsigma'.
         let thr = fadd ri_offset (fmul MinSNR ri_sigma) in
         bind (wr ''rthreshold'' (rthreshold rs) ri thr) (\<lambda>rthreshold1.
         bind (wr ''lthreshold'' (lthreshold rs) ri (fsub ri_offset (fmul MinSNR ri_sigma)))
           (\<lambda>lthreshold'.
           Inr (rs\<lparr>roffset := roffset',
                   rthreshold := (if flt_less thr ADCthresh then rthreshold1[nat ri := ADCthresh]
                                  else rthreshold1),
                   rsigma := rsigma', lthreshold := lthreshold'\<rparr>))))))))"

definition RadialStats_iteration ::
    "flt list \<Rightarrow> int \<Rightarrow> flt list \<Rightarrow> int list \<Rightarrow> flt \<Rightarrow> flt \<Rightarrow> int \<Rightarrow> RadialStats \<Rightarrow> fault + RadialStats" where
  \<comment> \<open>the body of the loop over \<^verbatim>\<open>iter\<close> of \<^verbatim>\<open>RadialStats::compute_bins_and_stats\<close>\<close>
  "RadialStats_iteration data num_pixels radius msk MinSNR ADCthresh iter rs =
     (let rs1 = (if 0 < iter
                 then rs\<lparr>roffset := map (\<lambda>x. Finite 0) (roffset rs),
                         rsigma := map (\<lambda>x. Finite 0) (rsigma rs),
                         rcount := map (\<lambda>x. 0) (rcount rs)\<rparr>
                 else rs)
      in
      bind (RadialStats_fill_radial_bins data num_pixels radius msk rs1) (\<lambda>rs2.
        for_loop 0 (n_rad_bins rs2) (RadialStats_compute_bin MinSNR ADCthresh) rs2))"

definition RadialStats_compute_bins_and_stats ::
    "flt list \<Rightarrow> int \<Rightarrow> flt list \<Rightarrow> int list \<Rightarrow> flt \<Rightarrow> flt \<Rightarrow> int \<Rightarrow> RadialStats \<Rightarrow> fault + RadialStats" where
  "RadialStats_compute_bins_and_stats data num_pixels radius msk MinSNR ADCthresh iterations rs =
     for_loop 0 iterations (RadialStats_iteration data num_pixels radius msk MinSNR ADCthresh) rs"

definition RadialStats_contributes ::
    "flt list \<Rightarrow> flt list \<Rightarrow> int list \<Rightarrow> RadialStats \<Rightarrow> int \<Rightarrow> int \<Rightarrow> bool" where
  \<comment> \<open>the test of \<^verbatim>\<open>RadialStats::fill_radial_bins\<close>\<close>
  "RadialStats_contributes data pix_radius msk rs ri pidx \<longleftrightarrow>
     msk ! nat pidx \<noteq> 0 \<and> int_of_flt (rint (pix_radius ! nat pidx)) = Inr ri \<and>
     flt_less (data ! nat pidx) (rthreshold rs ! nat ri) \<and>
     flt_greater (data ! nat pidx) (lthreshold rs ! nat ri)"

subsection \<open>A bin without contributors\<close>

definition fill_inv :: "radial_stats \<Rightarrow> int \<Rightarrow> radial_stats \<Rightarrow> bool" where
  "fill_inv rs0 ri rs \<longleftrightarrow>
     length (roffset rs) = length (roffset rs0) \<and> length (rsigma rs) = length (rsigma rs0) \<and>
     length (rcount rs) = length (rcount rs0) \<and> rthreshold rs = rthreshold rs0 \<and>
     rcount rs ! nat ri = 0"

lemma pixel_index_bounds:
  fixes w h iss ifs :: int
  assumes "0 \<le> iss" "iss < h" "0 \<le> ifs" "ifs < w"
  shows "0 \<le> iss * w + ifs" "iss * w + ifs < w * h"
proof -
  show "0 \<le> iss * w + ifs" using assms by simp
  have "iss * w + ifs < (iss + 1) * w" using assms by (simp add: algebra_simps)
  also have "\<dots> \<le> h * w" using assms by (intro mult_right_mono) auto
  finally show "iss * w + ifs < w * h" by (simp add: mult.commute)
qed

lemma fill_radial_bins_pixel_inv:
  assumes inv: "fill_inv rs0 ri rs"
    and ok: "radial_inputs_ok data r_map msk num_pix num_rad_bins"
    and px: "0 \<le> pidx" "pidx < num_pix"
    and lens: "num_rad_bins \<le> int (length (roffset rs0))" "num_rad_bins \<le> int (length (rsigma rs0))"
      "num_rad_bins \<le> int (length (rcount rs0))" "num_rad_bins \<le> int (length (rthreshold rs0))"
    and nc: "\<not> contributes data r_map msk rs0 ri pidx"
    and ri: "0 \<le> ri"
  shows "\<exists>rs'. fill_radial_bins_pixel data r_map msk pidx rs = Inr rs' \<and> fill_inv rs0 ri rs'"
proof -
  have b: "pidx < int (length data)" "pidx < int (length r_map)" "pidx < int (length msk)"
    using ok px by (auto simp: radial_inputs_ok_def)
  show ?thesis
  proof (cases "msk ! nat pidx = 0")
    case True
    with b px inv show ?thesis
      by (simp add: fill_radial_bins_pixel_def rd_def bind_def)
  next
    case False
    have "pidx \<in> {0..<num_pix}" using px by simp
    with ok False have "case int_of_flt (rint (r_map ! nat pidx)) of
        Inr k \<Rightarrow> 0 \<le> k \<and> k < num_rad_bins | Inl e \<Rightarrow> False"
      unfolding radial_inputs_ok_def by blast
    then obtain k where k: "int_of_flt (rint (r_map ! nat pidx)) = Inr k" "0 \<le> k" "k < num_rad_bins"
      by (cases "int_of_flt (rint (r_map ! nat pidx))") auto
    have kb: "k < int (length (roffset rs))" "k < int (length (rsigma rs))" "k < int (length (rcount rs))"
        "k < int (length (rthreshold rs))"
      using k lens inv by (auto simp: fill_inv_def)
    show ?thesis
    proof (cases "flt_less (data ! nat pidx) (rthreshold rs ! nat k)")
      case True
      have "k \<noteq> ri"
      proof
        assume "k = ri"
        with True False k inv have "contributes data r_map msk rs0 ri pidx"
          by (simp add: contributes_def fill_inv_def)
        with nc show False by simp
      qed
      then have ne: "nat k \<noteq> nat ri" using k ri by auto
      have "fill_radial_bins_pixel data r_map msk pidx rs =
          Inr (rs\<lparr>roffset := (roffset rs)[nat k := fadd (roffset rs ! nat k) (data ! nat pidx)],
                  rsigma := (rsigma rs)[nat k := fadd (rsigma rs ! nat k)
                                                   (fmul (data ! nat pidx) (data ! nat pidx))],
                  rcount := (rcount rs)[nat k := rcount rs ! nat k + 1]\<rparr>)"
        using True False b px k kb
        by (simp add: fill_radial_bins_pixel_def update_radial_stats_def rd_def wr_def bind_def)
      moreover have "fill_inv rs0 ri
          (rs\<lparr>roffset := (roffset rs)[nat k := fadd (roffset rs ! nat k) (data ! nat pidx)],
              rsigma := (rsigma rs)[nat k := fadd (rsigma rs ! nat k)
                                               (fmul (data ! nat pidx) (data ! nat pidx))],
              rcount := (rcount rs)[nat k := rcount rs ! nat k + 1]\<rparr>)"
        using inv ne by (simp add: fill_inv_def)
      ultimately show ?thesis by blast
    next
      case nl: False
      have "fill_radial_bins_pixel data r_map msk pidx rs = Inr rs"
        using nl False b px k kb
        by (simp add: fill_radial_bins_pixel_def rd_def bind_def)
      with inv show ?thesis by blast
    qed
  qed
qed

lemma fill_radial_bins_inv:
  assumes inv: "fill_inv rs0 ri rs0"
    and ok: "radial_inputs_ok data r_map msk (w * h) num_rad_bins"
    and lens: "num_rad_bins \<le> int (length (roffset rs0))" "num_rad_bins \<le> int (length (rsigma rs0))"
      "num_rad_bins \<le> int (length (rcount rs0))" "num_rad_bins \<le> int (length (rthreshold rs0))"
    and nc: "\<forall>pidx \<in> {0..<w * h}. \<not> contributes data r_map msk rs0 ri pidx"
    and ri: "0 \<le> ri"
  shows "\<exists>rs'. fill_radial_bins data w h r_map msk rs0 = Inr rs' \<and> fill_inv rs0 ri rs'"
proof -
  have px: "\<exists>rs'. fill_radial_bins_pixel data r_map msk (iss * w + ifs) rs = Inr rs' \<and> fill_inv rs0 ri rs'"
    if "0 \<le> iss" "iss < h" "0 \<le> ifs" "ifs < w" "fill_inv rs0 ri rs" for iss ifs rs
  proof -
    have b: "0 \<le> iss * w + ifs" "iss * w + ifs < w * h"
      using pixel_index_bounds[OF that(1-4)] by auto
    then have "\<not> contributes data r_map msk rs0 ri (iss * w + ifs)" using nc by simp
    from fill_radial_bins_pixel_inv[OF that(5) ok b lens this ri] show ?thesis .
  qed
  have row: "\<exists>rs'. for_loop 0 w (\<lambda>ifs. fill_radial_bins_pixel data r_map msk (iss * w + ifs)) rs = Inr rs' \<and>
               fill_inv rs0 ri rs'"
    if "0 \<le> iss" "iss < h" "fill_inv rs0 ri rs" for iss rs
    using for_loop_total[where P = "\<lambda>i. fill_inv rs0 ri" and lo = 0 and hi = w and s = rs
        and body = "\<lambda>ifs. fill_radial_bins_pixel data r_map msk (iss * w + ifs)"]
      px[OF that(1,2)] that(3) by blast
  show ?thesis
    unfolding fill_radial_bins_def
    using for_loop_total[where P = "\<lambda>i. fill_inv rs0 ri" and lo = 0 and hi = h and s = rs0
        and body = "\<lambda>iss. for_loop 0 w (\<lambda>ifs. fill_radial_bins_pixel data r_map msk (iss * w + ifs))"]
      row inv by blast
qed

definition zero_inv :: "radial_stats \<Rightarrow> int \<Rightarrow> radial_stats \<Rightarrow> bool" where
  "zero_inv rs0 i rs \<longleftrightarrow>
     length (roffset rs) = length (roffset rs0) \<and> length (rsigma rs) = length (rsigma rs0) \<and>
     length (rcount rs) = length (rcount rs0) \<and> rthreshold rs = rthreshold rs0 \<and>
     (\<forall>j. 0 \<le> j \<and> j < i \<longrightarrow> rcount rs ! nat j = 0)"

lemma zero_radial_stats_step:
  assumes inv: "zero_inv rs0 i rs" and i: "0 \<le> i" "i < num_rad_bins"
    and lens: "num_rad_bins \<le> int (length (roffset rs0))" "num_rad_bins \<le> int (length (rsigma rs0))"
      "num_rad_bins \<le> int (length (rcount rs0))"
  shows "\<exists>rs'. zero_radial_stats i rs = Inr rs' \<and> zero_inv rs0 (i + 1) rs'"
proof -
  have b: "i < int (length (roffset rs))" "i < int (length (rsigma rs))" "i < int (length (rcount rs))"
    using inv i lens by (auto simp: zero_inv_def)
  have "zero_radial_stats i rs =
      Inr (rs\<lparr>roffset := (roffset rs)[nat i := Finite 0], rsigma := (rsigma rs)[nat i := Finite 0],
              rcount := (rcount rs)[nat i := 0]\<rparr>)"
    using i b by (simp add: zero_radial_stats_def wr_def bind_def)
  moreover have "zero_inv rs0 (i + 1)
      (rs\<lparr>roffset := (roffset rs)[nat i := Finite 0], rsigma := (rsigma rs)[nat i := Finite 0],
          rcount := (rcount rs)[nat i := 0]\<rparr>)"
    unfolding zero_inv_def
  proof (intro conjI allI impI)
    fix j assume j: "0 \<le> j \<and> j < i + 1"
    show "rcount (rs\<lparr>roffset := (roffset rs)[nat i := Finite 0], rsigma := (rsigma rs)[nat i := Finite 0],
          rcount := (rcount rs)[nat i := 0]\<rparr>) ! nat j = 0"
    proof (cases "j = i")
      case True with b i show ?thesis by simp
    next
      case False
      with j i have "j < i" "nat j \<noteq> nat i" by auto
      with j inv show ?thesis by (simp add: zero_inv_def)
    qed
  qed (use inv in \<open>simp_all add: zero_inv_def\<close>)
  ultimately show ?thesis by blast
qed

lemma radial_stats_iteration_empty_bin:
  assumes ok: "radial_inputs_ok data r_map msk (w * h) num_rad_bins"
    and lens: "num_rad_bins \<le> int (length (roffset rs))" "num_rad_bins \<le> int (length (rsigma rs))"
      "num_rad_bins \<le> int (length (rcount rs))" "num_rad_bins \<le> int (length (rthreshold rs))"
    and ri: "0 \<le> ri" "ri < num_rad_bins"
    and nc: "\<forall>pidx \<in> {0..<w * h}. \<not> contributes data r_map msk rs ri pidx"
  shows "\<exists>rs'. radial_stats_iteration data w h r_map msk num_rad_bins snr_min adc rs = Inr rs' \<and>
           roffset rs' ! nat ri = Finite 0 \<and> rsigma rs' ! nat ri = Finite 0 \<and>
           rthreshold rs' ! nat ri = Finite 1000000000"
proof -
  have "zero_inv rs 0 rs" by (simp add: zero_inv_def)
  from for_loop_total[where P = "zero_inv rs" and body = zero_radial_stats, OF this
      zero_radial_stats_step[OF _ _ _ lens(1-3)], of num_rad_bins]
  obtain rs1 where r1: "for_loop 0 num_rad_bins zero_radial_stats rs = Inr rs1"
    and z: "zero_inv rs (max 0 num_rad_bins) rs1" by blast
  have l1: "length (roffset rs1) = length (roffset rs)" "length (rsigma rs1) = length (rsigma rs)"
      "length (rcount rs1) = length (rcount rs)" "rthreshold rs1 = rthreshold rs"
    and c1: "rcount rs1 ! nat ri = 0"
    using z ri by (auto simp: zero_inv_def)
  have i1: "fill_inv rs1 ri rs1" using c1 by (simp add: fill_inv_def)
  have nc1: "\<forall>pidx \<in> {0..<w * h}. \<not> contributes data r_map msk rs1 ri pidx"
    using nc l1 by (simp add: contributes_def)
  from fill_radial_bins_inv[OF i1 ok _ _ _ _ nc1 ri(1)] lens l1
  obtain rs2 where r2: "fill_radial_bins data w h r_map msk rs1 = Inr rs2"
    and f: "fill_inv rs1 ri rs2" by auto
  have l2: "num_rad_bins \<le> int (length (rcount rs2))" "num_rad_bins \<le> int (length (roffset rs2))"
      "num_rad_bins \<le> int (length (rsigma rs2))" "num_rad_bins \<le> int (length (rthreshold rs2))"
    and c2: "rcount rs2 ! nat ri = 0"
    using f l1 lens by (auto simp: fill_inv_def)
  from compute_radial_stats_zero_count[OF l2, of snr_min adc]
  obtain rs3 where r3: "compute_radial_stats rs2 num_rad_bins snr_min adc = Inr rs3"
    and e: "\<forall>ri. 0 \<le> ri \<and> ri < num_rad_bins \<and> rcount rs2 ! nat ri = 0 \<longrightarrow>
              roffset rs3 ! nat ri = Finite 0 \<and> rsigma rs3 ! nat ri = Finite 0 \<and>
              rthreshold rs3 ! nat ri = Finite 1000000000" by blast
  from e ri c2 have "roffset rs3 ! nat ri = Finite 0 \<and> rsigma rs3 ! nat ri = Finite 0 \<and>
              rthreshold rs3 ! nat ri = Finite 1000000000" by blast
  with r1 r2 r3 show ?thesis
    by (simp add: radial_stats_iteration_def bind_def)
qed


definition RadialStats_fill_inv :: "RadialStats \<Rightarrow> int \<Rightarrow> RadialStats \<Rightarrow> bool" where
  "RadialStats_fill_inv rs0 ri rs \<longleftrightarrow>
     length (roffset rs) = length (roffset rs0) \<and> length (rsigma rs) = length (rsigma rs0) \<and>
     length (rcount rs) = length (rcount rs0) \<and> rthreshold rs = rthreshold rs0 \<and>
     lthreshold rs = lthreshold rs0 \<and> n_rad_bins rs = n_rad_bins rs0 \<and>
     rcount rs ! nat ri = 0"

lemma RadialStats_fill_radial_bins_pixel_inv:
  assumes inv: "RadialStats_fill_inv rs0 ri rs"
    and ok: "radial_inputs_ok data pix_radius msk num_pix num_rad_bins"
    and px: "0 \<le> pidx" "pidx < num_pix"
    and lens: "num_rad_bins \<le> int (length (roffset rs0))" "num_rad_bins \<le> int (length (rsigma rs0))"
      "num_rad_bins \<le> int (length (rcount rs0))" "num_rad_bins \<le> int (length (rthreshold rs0))"
      "num_rad_bins \<le> int (length (lthreshold rs0))"
    and nc: "\<not> RadialStats_contributes data pix_radius msk rs0 ri pidx"
    and ri: "0 \<le> ri"
  shows "\<exists>rs'. RadialStats_fill_radial_bins_pixel data pix_radius msk pidx rs = Inr rs' \<and>
           RadialStats_fill_inv rs0 ri rs'"
proof -
  have b: "pidx < int (length data)" "pidx < int (length pix_radius)" "pidx < int (length msk)"
    using ok px by (auto simp: radial_inputs_ok_def)
  show ?thesis
  proof (cases "msk ! nat pidx = 0")
    case True
    with b px inv show ?thesis
      by (simp add: RadialStats_fill_radial_bins_pixel_def rd_def bind_def)
  next
    case False
    have "pidx \<in> {0..<num_pix}" using px by simp
    with ok False have "case int_of_flt (rint (pix_radius ! nat pidx)) of
        Inr k \<Rightarrow> 0 \<le> k \<and> k < num_rad_bins | Inl e \<Rightarrow> False"
      unfolding radial_inputs_ok_def by blast
    then obtain k where k: "int_of_flt (rint (pix_radius ! nat pidx)) = Inr k" "0 \<le> k" "k < num_rad_bins"
      by (cases "int_of_flt (rint (pix_radius ! nat pidx))") auto
    have kb: "k < int (length (roffset rs))" "k < int (length (rsigma rs))" "k < int (length (rcount rs))"
        "k < int (length (rthreshold rs))" "k < int (length (lthreshold rs))"
      using k lens inv by (auto simp: RadialStats_fill_inv_def)
    show ?thesis
    proof (cases "flt_less (data ! nat pidx) (rthreshold rs ! nat k) \<and>
                  flt_greater (data ! nat pidx) (lthreshold rs ! nat k)")
      case True
      have "k \<noteq> ri"
      proof
        assume "k = ri"
        with True False k inv have "RadialStats_contributes data pix_radius msk rs0 ri pidx"
          by (simp add: RadialStats_contributes_def RadialStats_fill_inv_def)
        with nc show False by simp
      qed
      then have ne: "nat k \<noteq> nat ri" using k ri by auto
      have "RadialStats_fill_radial_bins_pixel data pix_radius msk pidx rs =
          Inr (rs\<lparr>roffset := (roffset rs)[nat k := fadd (roffset rs ! nat k) (data ! nat pidx)],
                  rsigma := (rsigma rs)[nat k := fadd (rsigma rs ! nat k)
                                                   (fmul (data ! nat pidx) (data ! nat pidx))],
                  rcount := (rcount rs)[nat k := rcount rs ! nat k + 1]\<rparr>)"
        using True False b px k kb
        by (simp add: RadialStats_fill_radial_bins_pixel_def rd_def wr_def bind_def)
      moreover have "RadialStats_fill_inv rs0 ri
          (rs\<lparr>roffset := (roffset rs)[nat k := fadd (roffset rs ! nat k) (data ! nat pidx)],
              rsigma := (rsigma rs)[nat k := fadd (rsigma rs ! nat k)
                                               (fmul (data ! nat pidx) (data ! nat pidx))],
              rcount := (rcount rs)[nat k := rcount rs ! nat k + 1]\<rparr>)"
        using inv ne by (simp add: RadialStats_fill_inv_def)
      ultimately show ?thesis by blast
    next
      case nl: False
      have "RadialStats_fill_radial_bins_pixel data pix_radius msk pidx rs = Inr rs"
        using nl False b px k kb
        by (auto simp add: RadialStats_fill_radial_bins_pixel_def rd_def bind_def)
      with inv show ?thesis by blast
    qed
  qed
qed

lemma RadialStats_fill_radial_bins_inv:
  assumes inv: "RadialStats_fill_inv rs0 ri rs0"
    and ok: "radial_inputs_ok data pix_radius msk num_pix num_rad_bins"
    and lens: "num_rad_bins \<le> int (length (roffset rs0))" "num_rad_bins \<le> int (length (rsigma rs0))"
      "num_rad_bins \<le> int (length (rcount rs0))" "num_rad_bins \<le> int (length (rthreshold rs0))"
      "num_rad_bins \<le> int (length (lthreshold rs0))"
    and nc: "\<forall>pidx \<in> {0..<num_pix}. \<not> RadialStats_contributes data pix_radius msk rs0 ri pidx"
    and ri: "0 \<le> ri"
  shows "\<exists>rs'. RadialStats_fill_radial_bins data num_pix pix_radius msk rs0 = Inr rs' \<and>
           RadialStats_fill_inv rs0 ri rs'"
proof -
  have px: "\<exists>rs'. RadialStats_fill_radial_bins_pixel data pix_radius msk pidx rs = Inr rs' \<and>
              RadialStats_fill_inv rs0 ri rs'"
    if "0 \<le> pidx" "pidx < num_pix" "RadialStats_fill_inv rs0 ri rs" for pidx rs
  proof -
    have "\<not> RadialStats_contributes data pix_radius msk rs0 ri pidx" using nc that by simp
    from RadialStats_fill_radial_bins_pixel_inv[OF that(3) ok that(1,2) lens this ri] show ?thesis .
  qed
  show ?thesis
    unfolding RadialStats_fill_radial_bins_def
    using for_loop_total[where P = "\<lambda>i. RadialStats_fill_inv rs0 ri" and lo = 0 and hi = num_pix
        and s = rs0 and body = "RadialStats_fill_radial_bins_pixel data pix_radius msk"]
      px inv by blast
qed

definition RadialStats_empty_inv :: "RadialStats \<Rightarrow> int \<Rightarrow> RadialStats \<Rightarrow> bool" where
  "RadialStats_empty_inv rs0 i rs \<longleftrightarrow>
     rcount rs = rcount rs0 \<and>
     length (roffset rs) = length (roffset rs0) \<and> length (rsigma rs) = length (rsigma rs0) \<and>
     length (rthreshold rs) = length (rthreshold rs0) \<and>
     length (lthreshold rs) = length (lthreshold rs0) \<and>
     (\<forall>j. 0 \<le> j \<and> j < i \<and> rcount rs0 ! nat j = 0 \<longrightarrow>
        roffset rs ! nat j = Finite 0 \<and> rsigma rs ! nat j = Finite 0 \<and>
        rthreshold rs ! nat j = FLT_MAX \<and> lthreshold rs ! nat j = FLT_MIN)"

lemma RadialStats_empty_inv_step:
  assumes inv: "RadialStats_empty_inv rs0 i rs" and i: "0 \<le> i"
    and b: "nat i < length (roffset rs)" "nat i < length (rsigma rs)" "nat i < length (rthreshold rs)"
      "nat i < length (lthreshold rs)"
    and l: "length ts = length (rthreshold rs)"
    and z: "rcount rs0 ! nat i = 0 \<Longrightarrow>
              a = Finite 0 \<and> b = Finite 0 \<and> ts ! nat i = FLT_MAX \<and> c = FLT_MIN"
    and o: "\<And>j. j \<noteq> nat i \<Longrightarrow> ts ! j = rthreshold rs ! j"
  shows "RadialStats_empty_inv rs0 (i + 1)
           (rs\<lparr>roffset := (roffset rs)[nat i := a], rthreshold := ts,
                rsigma := (rsigma rs)[nat i := b], lthreshold := (lthreshold rs)[nat i := c]\<rparr>)"
  unfolding RadialStats_empty_inv_def
proof (intro conjI allI impI)
  fix j assume j: "0 \<le> j \<and> j < i + 1 \<and> rcount rs0 ! nat j = 0"
  show "roffset (rs\<lparr>roffset := (roffset rs)[nat i := a], rthreshold := ts,
                rsigma := (rsigma rs)[nat i := b], lthreshold := (lthreshold rs)[nat i := c]\<rparr>) ! nat j = Finite 0"
  proof (cases "j = i")
    case True with j z b show ?thesis by simp
  next
    case False
    with j i have "j < i" "nat j \<noteq> nat i" by auto
    with j inv show ?thesis by (simp add: RadialStats_empty_inv_def)
  qed
  show "rsigma (rs\<lparr>roffset := (roffset rs)[nat i := a], rthreshold := ts,
                rsigma := (rsigma rs)[nat i := b], lthreshold := (lthreshold rs)[nat i := c]\<rparr>) ! nat j = Finite 0"
  proof (cases "j = i")
    case True with j z b show ?thesis by simp
  next
    case False
    with j i have "j < i" "nat j \<noteq> nat i" by auto
    with j inv show ?thesis by (simp add: RadialStats_empty_inv_def)
  qed
  show "rthreshold (rs\<lparr>roffset := (roffset rs)[nat i := a], rthreshold := ts,
                rsigma := (rsigma rs)[nat i := b], lthreshold := (lthreshold rs)[nat i := c]\<rparr>) ! nat j = FLT_MAX"
  proof (cases "j = i")
    case True with j z b show ?thesis by simp
  next
    case False
    with j i have "j < i" "nat j \<noteq> nat i" by auto
    with j inv o show ?thesis by (simp add: RadialStats_empty_inv_def)
  qed
  show "lthreshold (rs\<lparr>roffset := (roffset rs)[nat i := a], rthreshold := ts,
                rsigma := (rsigma rs)[nat i := b], lthreshold := (lthreshold rs)[nat i := c]\<rparr>) ! nat j = FLT_MIN"
  proof (cases "j = i")
    case True with j z b show ?thesis by simp
  next
    case False
    with j i have "j < i" "nat j \<noteq> nat i" by auto
    with j inv show ?thesis by (simp add: RadialStats_empty_inv_def)
  qed
qed (use inv l in \<open>simp_all add: RadialStats_empty_inv_def\<close>)

lemma RadialStats_compute_bin_step:
  assumes inv: "RadialStats_empty_inv rs0 i rs" and i: "0 \<le> i" "i < num_rad_bins"
    and len: "num_rad_bins \<le> int (length (rcount rs0))" "num_rad_bins \<le> int (length (roffset rs0))"
      "num_rad_bins \<le> int (length (rsigma rs0))" "num_rad_bins \<le> int (length (rthreshold rs0))"
      "num_rad_bins \<le> int (length (lthreshold rs0))"
  shows "\<exists>rs'. RadialStats_compute_bin snr_min adc i rs = Inr rs' \<and>
           RadialStats_empty_inv rs0 (i + 1) rs'"
proof -
  have c: "rcount rs = rcount rs0" using inv by (simp add: RadialStats_empty_inv_def)
  have b: "i < int (length (rcount rs))" "i < int (length (roffset rs))"
      "i < int (length (rsigma rs))" "i < int (length (rthreshold rs))"
      "i < int (length (lthreshold rs))"
    using inv i len by (auto simp: RadialStats_empty_inv_def)
  then have b': "nat i < length (roffset rs)" "nat i < length (rsigma rs)" "nat i < length (rthreshold rs)"
      "nat i < length (lthreshold rs)"
    using i by auto
  show ?thesis
  proof (cases "rcount rs ! nat i = 0")
    case True
    have "RadialStats_compute_bin snr_min adc i rs =
        Inr (rs\<lparr>roffset := (roffset rs)[nat i := Finite 0],
                rthreshold := (rthreshold rs)[nat i := FLT_MAX],
                rsigma := (rsigma rs)[nat i := Finite 0],
                lthreshold := (lthreshold rs)[nat i := FLT_MIN]\<rparr>)"
      using True i b by (simp add: RadialStats_compute_bin_def rd_def wr_def bind_def)
    moreover have "RadialStats_empty_inv rs0 (i + 1)
         (rs\<lparr>roffset := (roffset rs)[nat i := Finite 0],
                rthreshold := (rthreshold rs)[nat i := FLT_MAX],
                rsigma := (rsigma rs)[nat i := Finite 0],
                lthreshold := (lthreshold rs)[nat i := FLT_MIN]\<rparr>)"
      by (rule RadialStats_empty_inv_step[OF inv i(1) b']) (use b' in simp_all)
    ultimately show ?thesis by blast
  next
    case False
    then have nz: "rcount rs0 ! nat i \<noteq> 0" using c by simp
    define n where "n = rcount rs ! nat i"
    define a where "a = fdiv (roffset rs ! nat i) (float_of_int n)"
    define s0 where "s0 = fsub (fdiv (rsigma rs ! nat i) (float_of_int n)) (fmul a a)"
    define b where "b = (if flt_ge s0 (Finite 0) then to_float (dsqrt s0) else s0)"
    define t where "t = fadd a (fmul snr_min b)"
    define ts where "ts = (if flt_less t adc then (rthreshold rs)[nat i := t, nat i := adc]
                           else (rthreshold rs)[nat i := t])"
    define c where "c = fsub a (fmul snr_min b)"
    have "RadialStats_compute_bin snr_min adc i rs =
        Inr (rs\<lparr>roffset := (roffset rs)[nat i := a], rthreshold := ts,
                rsigma := (rsigma rs)[nat i := b], lthreshold := (lthreshold rs)[nat i := c]\<rparr>)"
      using False i b
      by (simp add: RadialStats_compute_bin_def rd_def wr_def bind_def Let_def
            a_def b_def c_def n_def s0_def t_def ts_def)
    moreover have "RadialStats_empty_inv rs0 (i + 1)
        (rs\<lparr>roffset := (roffset rs)[nat i := a], rthreshold := ts,
                rsigma := (rsigma rs)[nat i := b], lthreshold := (lthreshold rs)[nat i := c]\<rparr>)"
      by (rule RadialStats_empty_inv_step[OF inv i(1) b']) (use nz in \<open>simp_all add: ts_def\<close>)
    ultimately show ?thesis by blast
  qed
qed

lemma RadialStats_iteration_empty_bin:
  assumes ok: "radial_inputs_ok data pix_radius msk num_pix (n_rad_bins rs)"
    and lens: "n_rad_bins rs \<le> int (length (roffset rs))" "n_rad_bins rs \<le> int (length (rsigma rs))"
      "n_rad_bins rs \<le> int (length (rcount rs))" "n_rad_bins rs \<le> int (length (rthreshold rs))"
      "n_rad_bins rs \<le> int (length (lthreshold rs))"
    and ri: "0 \<le> ri" "ri < n_rad_bins rs"
    and first: "0 < iter \<or> rcount rs ! nat ri = 0"
    and nc: "\<forall>pidx \<in> {0..<num_pix}. \<not> RadialStats_contributes data pix_radius msk rs ri pidx"
  shows "\<exists>rs'. RadialStats_iteration data num_pix pix_radius msk snr_min adc iter rs = Inr rs' \<and>
           roffset rs' ! nat ri = Finite 0 \<and> rsigma rs' ! nat ri = Finite 0 \<and>
           rthreshold rs' ! nat ri = FLT_MAX \<and> lthreshold rs' ! nat ri = FLT_MIN"
proof -
  define rs1 where "rs1 = (if 0 < iter
                 then rs\<lparr>roffset := map (\<lambda>x. Finite 0) (roffset rs),
                         rsigma := map (\<lambda>x. Finite 0) (rsigma rs),
                         rcount := map (\<lambda>x. 0) (rcount rs)\<rparr>
                 else rs)"
  have l1: "length (roffset rs1) = length (roffset rs)" "length (rsigma rs1) = length (rsigma rs)"
      "length (rcount rs1) = length (rcount rs)" "rthreshold rs1 = rthreshold rs"
      "lthreshold rs1 = lthreshold rs" "n_rad_bins rs1 = n_rad_bins rs"
    by (simp_all add: rs1_def)
  have c1: "rcount rs1 ! nat ri = 0"
    using first ri lens by (auto simp: rs1_def)
  have i1: "RadialStats_fill_inv rs1 ri rs1" using c1 by (simp add: RadialStats_fill_inv_def)
  have nc1: "\<forall>pidx \<in> {0..<num_pix}. \<not> RadialStats_contributes data pix_radius msk rs1 ri pidx"
    using nc l1 by (simp add: RadialStats_contributes_def)
  from RadialStats_fill_radial_bins_inv[OF i1 ok _ _ _ _ _ nc1 ri(1)] lens l1
  obtain rs2 where r2: "RadialStats_fill_radial_bins data num_pix pix_radius msk rs1 = Inr rs2"
    and f: "RadialStats_fill_inv rs1 ri rs2" by auto
  have n2: "n_rad_bins rs2 = n_rad_bins rs" using f l1 by (simp add: RadialStats_fill_inv_def)
  have l2: "n_rad_bins rs \<le> int (length (rcount rs2))" "n_rad_bins rs \<le> int (length (roffset rs2))"
      "n_rad_bins rs \<le> int (length (rsigma rs2))" "n_rad_bins rs \<le> int (length (rthreshold rs2))"
      "n_rad_bins rs \<le> int (length (lthreshold rs2))"
    and c2: "rcount rs2 ! nat ri = 0"
    using f l1 lens by (auto simp: RadialStats_fill_inv_def)
  have "RadialStats_empty_inv rs2 0 rs2" unfolding RadialStats_empty_inv_def by auto
  from for_loop_total[where P = "RadialStats_empty_inv rs2" and body = "RadialStats_compute_bin snr_min adc",
      OF this RadialStats_compute_bin_step[OF _ _ _ l2], of "n_rad_bins rs"]
  obtain rs3 where r3: "for_loop 0 (n_rad_bins rs) (RadialStats_compute_bin snr_min adc) rs2 = Inr rs3"
    and p: "RadialStats_empty_inv rs2 (max 0 (n_rad_bins rs)) rs3" by blast
  have "ri < max 0 (n_rad_bins rs)" using ri by simp
  with p c2 ri have "roffset rs3 ! nat ri = Finite 0 \<and> rsigma rs3 ! nat ri = Finite 0 \<and>
              rthreshold rs3 ! nat ri = FLT_MAX \<and> lthreshold rs3 ! nat ri = FLT_MIN"
    unfolding RadialStats_empty_inv_def by blast
  with r2 r3 n2 show ?thesis
    by (simp add: RadialStats_iteration_def Let_def bind_def rs1_def[symmetric])
qed


text \<open>
  C4 (empty radial bins). The claim gives a bin without contributors the offset 0, the
  sigma 0, the upper threshold \<open>+\<infinity>\<close> and the lower threshold \<open>-\<infinity>\<close>, so that no pixel
  exceeds its threshold. Both copies of the program give such a bin the offset 0 and the
  sigma 0, and a finite upper threshold: \<^verbatim>\<open>1e9\<close> in \<^verbatim>\<open>src/cython/peakfinder8.cpp\<close>,
  \<^verbatim>\<open>FLT_MAX\<close> in \<^verbatim>\<open>src/src/cython/peakfinder8.cpp\<close>. Amended: in an iteration of the
  radial statistics of either copy, a bin to which no pixel of the image contributes has
  the offset 0, the sigma 0 and that finite upper threshold at the end of the iteration;
  a pixel of \<^verbatim>\<open>2e9\<close> exceeds the first, an infinite pixel the second. The iteration is
  the body of the loop over \<^verbatim>\<open>it_counter\<close> of \<^verbatim>\<open>peakfinder8\<close> (the sums and counts are
  cleared, \<^verbatim>\<open>fill_radial_bins\<close>, \<^verbatim>\<open>compute_radial_stats\<close>), and the body of the loop
  over \<^verbatim>\<open>iter\<close> of \<^verbatim>\<open>RadialStats::compute_bins_and_stats\<close>, whose first iteration
  starts from the zeros of the constructor. The amended claim says nothing of the lower
  threshold, which only the newer copy has.
\<close>

theorem radial_bin_without_contributors:
  "(radial_inputs_ok data r_map msk (w * h) num_rad_bins \<and>
    num_rad_bins \<le> int (length (roffset rs)) \<and> num_rad_bins \<le> int (length (rsigma rs)) \<and>
    num_rad_bins \<le> int (length (rcount rs)) \<and> num_rad_bins \<le> int (length (rthreshold rs)) \<and>
    0 \<le> ri \<and> ri < num_rad_bins \<and>
    (\<forall>pidx \<in> {0..<w * h}. \<not> contributes data r_map msk rs ri pidx) \<longrightarrow>
    (\<exists>rs'. radial_stats_iteration data w h r_map msk num_rad_bins snr_min adc rs = Inr rs' \<and>
       roffset rs' ! nat ri = Finite 0 \<and> rsigma rs' ! nat ri = Finite 0 \<and>
       rthreshold rs' ! nat ri = Finite 1000000000 \<and>
       flt_greater (Finite 2000000000) (rthreshold rs' ! nat ri))) \<and>
   (radial_inputs_ok data r_map msk num_pix (n_rad_bins rs2) \<and>
    n_rad_bins rs2 \<le> int (length (roffset rs2)) \<and> n_rad_bins rs2 \<le> int (length (rsigma rs2)) \<and>
    n_rad_bins rs2 \<le> int (length (rcount rs2)) \<and> n_rad_bins rs2 \<le> int (length (rthreshold rs2)) \<and>
    n_rad_bins rs2 \<le> int (length (lthreshold rs2)) \<and>
    0 \<le> ri2 \<and> ri2 < n_rad_bins rs2 \<and> (0 < iter \<or> rcount rs2 ! nat ri2 = 0) \<and>
    (\<forall>pidx \<in> {0..<num_pix}. \<not> RadialStats_contributes data r_map msk rs2 ri2 pidx) \<longrightarrow>
    (\<exists>rs'. RadialStats_iteration data num_pix r_map msk snr_min adc iter rs2 = Inr rs' \<and>
       roffset rs' ! nat ri2 = Finite 0 \<and> rsigma rs' ! nat ri2 = Finite 0 \<and>
       rthreshold rs' ! nat ri2 = FLT_MAX \<and>
       flt_greater PInf (rthreshold rs' ! nat ri2)))"
proof (intro conjI impI)
  assume a: "radial_inputs_ok data r_map msk (w * h) num_rad_bins \<and>
    num_rad_bins \<le> int (length (roffset rs)) \<and> num_rad_bins \<le> int (length (rsigma rs)) \<and>
    num_rad_bins \<le> int (length (rcount rs)) \<and> num_rad_bins \<le> int (length (rthreshold rs)) \<and>
    0 \<le> ri \<and> ri < num_rad_bins \<and>
    (\<forall>pidx \<in> {0..<w * h}. \<not> contributes data r_map msk rs ri pidx)"
  from radial_stats_iteration_empty_bin[of data r_map msk w h num_rad_bins rs ri snr_min adc] a
  obtain rs' where "radial_stats_iteration data w h r_map msk num_rad_bins snr_min adc rs = Inr rs'"
    "roffset rs' ! nat ri = Finite 0" "rsigma rs' ! nat ri = Finite 0"
    "rthreshold rs' ! nat ri = Finite 1000000000" by blast
  then show "\<exists>rs'. radial_stats_iteration data w h r_map msk num_rad_bins snr_min adc rs = Inr rs' \<and>
       roffset rs' ! nat ri = Finite 0 \<and> rsigma rs' ! nat ri = Finite 0 \<and>
       rthreshold rs' ! nat ri = Finite 1000000000 \<and>
       flt_greater (Finite 2000000000) (rthreshold rs' ! nat ri)"
    by (simp add: flt_greater_def)
next
  assume a: "radial_inputs_ok data r_map msk num_pix (n_rad_bins rs2) \<and>
    n_rad_bins rs2 \<le> int (length (roffset rs2)) \<and> n_rad_bins rs2 \<le> int (length (rsigma rs2)) \<and>
    n_rad_bins rs2 \<le> int (length (rcount rs2)) \<and> n_rad_bins rs2 \<le> int (length (rthreshold rs2)) \<and>
    n_rad_bins rs2 \<le> int (length (lthreshold rs2)) \<and>
    0 \<le> ri2 \<and> ri2 < n_rad_bins rs2 \<and> (0 < iter \<or> rcount rs2 ! nat ri2 = 0) \<and>
    (\<forall>pidx \<in> {0..<num_pix}. \<not> RadialStats_contributes data r_map msk rs2 ri2 pidx)"
  from RadialStats_iteration_empty_bin[of data r_map msk num_pix rs2 ri2 iter snr_min adc] a
  obtain rs' where "RadialStats_iteration data num_pix r_map msk snr_min adc iter rs2 = Inr rs'"
    "roffset rs' ! nat ri2 = Finite 0" "rsigma rs' ! nat ri2 = Finite 0"
    "rthreshold rs' ! nat ri2 = FLT_MAX" by blast
  then show "\<exists>rs'. RadialStats_iteration data num_pix r_map msk snr_min adc iter rs2 = Inr rs' \<and>
       roffset rs' ! nat ri2 = Finite 0 \<and> rsigma rs' ! nat ri2 = Finite 0 \<and>
       rthreshold rs' ! nat ri2 = FLT_MAX \<and>
       flt_greater PInf (rthreshold rs' ! nat ri2)"
    by (simp add: flt_greater_def FLT_MAX_def)
qed

definition data_ex :: "flt list" where
  "data_ex = [Finite 3, Finite 4]"

definition r_map_ex :: "flt list" where
  "r_map_ex = [Finite 0, Finite 1]"

definition mask_ex :: "int list" where
  "mask_ex = [1, 0]"

definition rstats_ex :: radial_stats where
  "rstats_ex = \<lparr>roffset = [Finite 5, Finite 5], rthreshold = [Finite 7, Finite 7],
                 rsigma = [Finite 3, Finite 3], rcount = [4, 4], n_rad_bins = 2\<rparr>"

definition RadialStats_ex :: RadialStats where
  "RadialStats_ex = \<lparr>roffset = [Finite 5, Finite 5], rthreshold = [Finite 7, Finite 7],
                      rsigma = [Finite 3, Finite 3], rcount = [4, 4], n_rad_bins = 2,
                      lthreshold = [Finite 1, Finite 1]\<rparr>"

lemma radial_inputs_ok_ex: "radial_inputs_ok data_ex r_map_ex mask_ex 2 2"
proof -
  have "case int_of_flt (rint (r_map_ex ! nat pidx)) of
          Inr k \<Rightarrow> 0 \<le> k \<and> k < 2 | Inl e \<Rightarrow> False"
    if "pidx \<in> {0..<2}" for pidx :: int
  proof -
    from that have "pidx = 0 \<or> pidx = 1" by auto
    then show ?thesis
      by (auto simp: r_map_ex_def round_even_def Let_def INT_MIN_def INT_MAX_def)
  qed
  then show ?thesis
    unfolding radial_inputs_ok_def by (simp add: data_ex_def r_map_ex_def mask_ex_def)
qed

lemma no_contributor_ex:
  "\<forall>pidx \<in> {0..<2}. \<not> contributes data_ex r_map_ex mask_ex rstats_ex 1 pidx"
  unfolding contributes_def data_ex_def r_map_ex_def mask_ex_def
proof
  fix pidx :: int assume "pidx \<in> {0..<2}"
  then have "pidx = 0 \<or> pidx = 1" by auto
  then show "\<not> ([1, 0] ! nat pidx \<noteq> (0::int) \<and>
       int_of_flt (rint ([Finite 0, Finite 1] ! nat pidx)) = Inr 1 \<and>
       flt_less ([Finite 3, Finite 4] ! nat pidx) (rthreshold rstats_ex ! nat 1))"
    by (auto simp: round_even_def Let_def INT_MIN_def INT_MAX_def)
qed

lemma RadialStats_no_contributor_ex:
  "\<forall>pidx \<in> {0..<2}. \<not> RadialStats_contributes data_ex r_map_ex mask_ex RadialStats_ex 1 pidx"
  unfolding RadialStats_contributes_def data_ex_def r_map_ex_def mask_ex_def
proof
  fix pidx :: int assume "pidx \<in> {0..<2}"
  then have "pidx = 0 \<or> pidx = 1" by auto
  then show "\<not> ([1, 0] ! nat pidx \<noteq> (0::int) \<and>
       int_of_flt (rint ([Finite 0, Finite 1] ! nat pidx)) = Inr 1 \<and>
       flt_less ([Finite 3, Finite 4] ! nat pidx) (rthreshold RadialStats_ex ! nat 1) \<and>
       flt_greater ([Finite 3, Finite 4] ! nat pidx) (lthreshold RadialStats_ex ! nat 1))"
    by (auto simp: round_even_def Let_def INT_MIN_def INT_MAX_def)
qed

theorem radial_bin_without_contributors_witness:
  "(\<exists>rs'. radial_stats_iteration data_ex 2 1 r_map_ex mask_ex 2 (Finite 5) (Finite 10) rstats_ex = Inr rs' \<and>
       roffset rs' ! 1 = Finite 0 \<and> rsigma rs' ! 1 = Finite 0 \<and>
       rthreshold rs' ! 1 = Finite 1000000000 \<and>
       flt_greater (Finite 2000000000) (rthreshold rs' ! 1)) \<and>
   (\<exists>rs'. RadialStats_iteration data_ex 2 r_map_ex mask_ex (Finite 5) (Finite 10) 1 RadialStats_ex = Inr rs' \<and>
       roffset rs' ! 1 = Finite 0 \<and> rsigma rs' ! 1 = Finite 0 \<and>
       rthreshold rs' ! 1 = FLT_MAX \<and>
       flt_greater PInf (rthreshold rs' ! 1))"
  using radial_bin_without_contributors[of data_ex r_map_ex mask_ex 2 1 2 rstats_ex 1
      "Finite 5" "Finite 10" 2 RadialStats_ex 1 1]
    radial_inputs_ok_ex no_contributor_ex RadialStats_no_contributor_ex
  by (simp add: rstats_ex_def RadialStats_ex_def)

theorem radial_bin_without_contributors_counterexample:
  "radial_stats_iteration data_ex 2 1 r_map_ex mask_ex 2 (Finite 5) (Finite 10) rstats_ex =
     Inr \<lparr>roffset = [Finite 3, Finite 0], rthreshold = [Finite 10, Finite 1000000000],
          rsigma = [Finite 0, Finite 0], rcount = [1, 0], n_rad_bins = 2\<rparr> \<and>
   \<not> contributes data_ex r_map_ex mask_ex rstats_ex 1 0 \<and>
   \<not> contributes data_ex r_map_ex mask_ex rstats_ex 1 1 \<and>
   Finite 1000000000 \<noteq> PInf \<and>
   RadialStats_iteration data_ex 2 r_map_ex mask_ex (Finite 5) (Finite 10) 1 RadialStats_ex =
     Inr \<lparr>roffset = [Finite 3, Finite 0], rthreshold = [Finite 10, FLT_MAX],
          rsigma = [Finite 0, Finite 0], rcount = [1, 0], n_rad_bins = 2,
          lthreshold = [Finite 3, FLT_MIN]\<rparr> \<and>
   \<not> RadialStats_contributes data_ex r_map_ex mask_ex RadialStats_ex 1 0 \<and>
   \<not> RadialStats_contributes data_ex r_map_ex mask_ex RadialStats_ex 1 1 \<and>
   FLT_MAX \<noteq> PInf"
  by code_simp

subsection \<open>Flood fill of a peak\<close>

text \<open>
  The parameters of \<^verbatim>\<open>process_panel\<close> that the search only reads are the fields of
  \<open>panel_env\<close>; \<open>rstats\<close> holds the arrays \<^verbatim>\<open>rthreshold\<close> and \<^verbatim>\<open>roffset\<close>, \<open>msk\<close> is
  the parameter \<^verbatim>\<open>mask\<close>. What the search writes is the state \<open>pf_state\<close>: the working
  arrays, the arrays of found peaks, the peak counter and the sums of the current peak.
\<close>

record panel_env =
  asic_size_fs :: int
  asic_size_ss :: int
  num_pix_fs :: int
  aiss :: int
  aifs :: int
  rstats :: radial_stats
  copy :: "flt list"
  r_map :: "flt list"
  msk :: "int list"
  min_pix_count :: int
  max_pix_count :: int
  local_bg_radius :: int
  min_snr :: flt
  max_n_peaks :: int

record pf_state =
  pfinter :: peakfinder_intern_data
  pkdata :: peakfinder_peak_data
  peak_count :: int
  num_pix_in_peak :: int
  sum_com_fs :: flt
  sum_com_ss :: flt
  sum_i :: flt

definition search_fs :: "int list" where
  "search_fs = [0, - 1, 0, 1, - 1, 1, - 1, 0, 1]"

definition search_ss :: "int list" where
  "search_ss = [0, - 1, - 1, - 1, 0, 0, 1, 1, 1]"

definition search_n :: int where
  "search_n = 9"

definition add_pixel_to_peak ::
    "panel_env \<Rightarrow> int \<Rightarrow> int \<Rightarrow> int \<Rightarrow> int \<Rightarrow> int \<Rightarrow> flt \<Rightarrow> pf_state \<Rightarrow> fault + pf_state" where
  \<comment> \<open>the body of the \<^verbatim>\<open>if\<close> of \<^verbatim>\<open>peak_search\<close>: pixel \<open>pix\<close> joins the peak\<close>
  "add_pixel_to_peak env new_fs new_ss curr_fs curr_ss pix curr_i s =
     bind (wr ''inss'' (inss (pfinter s)) (num_pix_in_peak s) new_ss) (\<lambda>inss'.
     bind (wr ''infs'' (infs (pfinter s)) (num_pix_in_peak s) new_fs) (\<lambda>infs'.
     bind (wr ''pix_in_peak_map'' (pix_in_peak_map (pfinter s)) pix 1) (\<lambda>map'.
     bind (if num_pix_in_peak s < max_pix_count env
           then wr ''peak_pixels'' (peak_pixels (pfinter s)) (num_pix_in_peak s) pix
           else Inr (peak_pixels (pfinter s))) (\<lambda>peak_pixels'.
       Inr (s\<lparr>pfinter := \<lparr>pix_in_peak_map = map', infs = infs', inss = inss',
                            peak_pixels = peak_pixels'\<rparr>,
               num_pix_in_peak := num_pix_in_peak s + 1,
               sum_i := fadd (sum_i s) curr_i,
               sum_com_fs := fadd (sum_com_fs s) (fmul curr_i (float_of_int curr_fs)),
               sum_com_ss := fadd (sum_com_ss s) (fmul curr_i (float_of_int curr_ss))\<rparr>)))))"

definition peak_search_step :: "panel_env \<Rightarrow> int \<Rightarrow> int \<Rightarrow> pf_state \<Rightarrow> fault + pf_state" where
  \<comment> \<open>one iteration \<open>k\<close> of the loop of \<^verbatim>\<open>peak_search\<close>\<close>
  "peak_search_step env p k s =
     bind (rd ''search_fs'' search_fs k) (\<lambda>dfs.
     bind (rd ''search_ss'' search_ss k) (\<lambda>dss.
     bind (rd ''infs'' (infs (pfinter s)) p) (\<lambda>fs_p.
       if fs_p + dfs < 0 then Inr s
       else if asic_size_fs env \<le> fs_p + dfs then Inr s
       else
     bind (rd ''inss'' (inss (pfinter s)) p) (\<lambda>ss_p.
       if ss_p + dss < 0 then Inr s
       else if asic_size_ss env \<le> ss_p + dss then Inr s
       else
         let curr_fs = fs_p + dfs + aifs env * asic_size_fs env;
             curr_ss = ss_p + dss + aiss env * asic_size_ss env;
             pix = curr_fs + curr_ss * num_pix_fs env
         in
     bind (rd ''r_map'' (r_map env) pix) (\<lambda>r.
     bind (int_of_flt (rint r)) (\<lambda>curr_radius.
     bind (rd ''rthreshold'' (rthreshold (rstats env)) curr_radius) (\<lambda>curr_threshold.
     bind (rd ''copy'' (copy env) pix) (\<lambda>c.
       if flt_greater c curr_threshold then
     bind (rd ''pix_in_peak_map'' (pix_in_peak_map (pfinter s)) pix) (\<lambda>m.
       if m = 0 then
     bind (rd ''mask'' (msk env) pix) (\<lambda>mk.
       if mk \<noteq> 0 then
     bind (rd ''roffset'' (roffset (rstats env)) curr_radius) (\<lambda>off.
       add_pixel_to_peak env (fs_p + dfs) (ss_p + dss) curr_fs curr_ss pix (fsub c off) s)
       else Inr s)
       else Inr s)
       else Inr s))))))))"

definition peak_search :: "panel_env \<Rightarrow> int \<Rightarrow> pf_state \<Rightarrow> fault + pf_state" where
  "peak_search env p s = for_loop 0 search_n (peak_search_step env p) s"

definition zeros :: "int list \<Rightarrow> nat" where
  \<comment> \<open>the number of pixels that are in no peak yet\<close>
  "zeros xs = length (filter (\<lambda>x. x = 0) xs)"

definition fill_measure :: "pf_state \<Rightarrow> int" where
  "fill_measure s = num_pix_in_peak s + int (zeros (pix_in_peak_map (pfinter s)))"

lemma zeros_update:
  "i < length xs \<Longrightarrow> xs ! i = 0 \<Longrightarrow> Suc (zeros (xs[i := 1])) = zeros xs"
proof (induction xs arbitrary: i)
  case Nil
  then show ?case by simp
next
  case (Cons x xs)
  then show ?case by (cases i) (auto simp: zeros_def)
qed


lemma zeros_update_int:
  assumes "0 \<le> pix" "pix < int (length xs)" "xs ! nat pix = 0"
  shows "1 + int (zeros (xs[nat pix := 1])) = int (zeros xs)"
proof -
  have "nat pix < length xs" using assms by simp
  from zeros_update[OF this assms(3)] show ?thesis by simp
qed

lemma add_pixel_to_peak_measure:
  assumes z: "pix_in_peak_map (pfinter s) ! nat pix = 0"
  shows "wp (add_pixel_to_peak env new_fs new_ss curr_fs curr_ss pix curr_i s)
           (\<lambda>s'. fill_measure s' = fill_measure s \<and> num_pix_in_peak s \<le> num_pix_in_peak s')
           (\<lambda>e. True)"
  unfolding add_pixel_to_peak_def
  apply (intro wp_intros TrueI)
  using z by (simp_all add: fill_measure_def zeros_update_int)

lemma peak_search_step_measure:
  "wp (peak_search_step env p k s)
      (\<lambda>s'. fill_measure s' = fill_measure s \<and> num_pix_in_peak s \<le> num_pix_in_peak s')
      (\<lambda>e. True)"
  unfolding peak_search_step_def Let_def
  by (intro wp_intros TrueI add_pixel_to_peak_measure) (simp_all (no_asm_simp))

lemma peak_search_measure:
  "wp (peak_search env p s)
      (\<lambda>s'. fill_measure s' = fill_measure s \<and> num_pix_in_peak s \<le> num_pix_in_peak s')
      (\<lambda>e. True)"
  unfolding peak_search_def
proof (rule wp_for_loop[where I = "\<lambda>i t. fill_measure t = fill_measure s \<and> num_pix_in_peak s \<le> num_pix_in_peak t"])
  fix i t assume "fill_measure t = fill_measure s \<and> num_pix_in_peak s \<le> num_pix_in_peak t"
  then show "wp (peak_search_step env p i t)
      (\<lambda>t'. fill_measure t' = fill_measure s \<and> num_pix_in_peak s \<le> num_pix_in_peak t') (\<lambda>e. True)"
    by (intro wp_weaken[OF peak_search_step_measure]) auto
qed simp_all

function flood_pass :: "panel_env \<Rightarrow> int \<Rightarrow> pf_state \<Rightarrow> fault + pf_state" where
  "flood_pass env p s =
     (if p < num_pix_in_peak s
      then (case peak_search env p s of Inl e \<Rightarrow> Inl e | Inr s' \<Rightarrow> flood_pass env (p + 1) s')
      else Inr s)"
  by pat_completeness auto
termination
proof (relation "measure (\<lambda>(env, p, s). nat (fill_measure s - p))")
  show "wf (measure (\<lambda>(env, p, s). nat (fill_measure s - p)))" by simp
next
  fix env :: panel_env and p :: int and s s' :: pf_state
  assume "p < num_pix_in_peak s" and "peak_search env p s = Inr s'"
  then have "fill_measure s' = fill_measure s" "p < fill_measure s"
    using wp_Inr_D[OF peak_search_measure, of env p s s'] by (auto simp: fill_measure_def)
  then show "((env, p + 1, s'), (env, p, s)) \<in> measure (\<lambda>(env, p, s). nat (fill_measure s - p))"
    by simp
qed

declare flood_pass.simps [simp del]

lemma flood_pass_measure:
  "flood_pass env p s = Inr s' \<Longrightarrow>
     fill_measure s' = fill_measure s \<and> num_pix_in_peak s \<le> num_pix_in_peak s'"
proof (induction env p s rule: flood_pass.induct)
  case (1 env p s)
  show ?case
  proof (cases "p < num_pix_in_peak s")
    case True
    with "1.prems" obtain s1 where a: "peak_search env p s = Inr s1" and b: "flood_pass env (p + 1) s1 = Inr s'"
      by (subst (asm) flood_pass.simps) (auto split: sum.splits)
    from "1.IH"[OF True a b] wp_Inr_D[OF peak_search_measure a] show ?thesis by simp
  next
    case False
    with "1.prems" show ?thesis by (subst (asm) flood_pass.simps) simp
  qed
qed

function flood_fill :: "panel_env \<Rightarrow> pf_state \<Rightarrow> fault + pf_state" where
  "flood_fill env s =
     (case flood_pass env 0 s of
        Inl e \<Rightarrow> Inl e
      | Inr s' \<Rightarrow> if num_pix_in_peak s \<noteq> num_pix_in_peak s' then flood_fill env s' else Inr s')"
  by pat_completeness auto
termination
proof (relation "measure (\<lambda>(env, s). zeros (pix_in_peak_map (pfinter s)))")
  show "wf (measure (\<lambda>(env, s). zeros (pix_in_peak_map (pfinter s))))" by simp
next
  fix env :: panel_env and s s' :: pf_state
  assume "flood_pass env 0 s = Inr s'" and "num_pix_in_peak s \<noteq> num_pix_in_peak s'"
  then show "((env, s'), (env, s)) \<in> measure (\<lambda>(env, s). zeros (pix_in_peak_map (pfinter s)))"
    using flood_pass_measure[of env 0 s s'] by (auto simp: fill_measure_def)
qed

declare flood_fill.simps [simp del]

subsection \<open>Local background and reintegration\<close>

record ring_acc =
  np_sigma :: int
  np_counted :: int
  ring_sum_i :: flt
  sum_i_squared :: flt
  background_max_i :: flt

definition search_in_ring_pixel ::
    "panel_env \<Rightarrow> int list \<Rightarrow> int \<Rightarrow> int \<Rightarrow> int \<Rightarrow> int \<Rightarrow> int \<Rightarrow> ring_acc \<Rightarrow> fault + ring_acc" where
  \<comment> \<open>the body of the two loops of \<^verbatim>\<open>search_in_ring\<close>; \<open>ring_sum_i\<close> is its local \<^verbatim>\<open>sum_i\<close>\<close>
  "search_in_ring_pixel env peak_map ring_width com_fs_int com_ss_int ssj fsi a =
     (if com_fs_int + fsi < 0 then Inr a
      else if asic_size_fs env \<le> com_fs_int + fsi then Inr a
      else if com_ss_int + ssj < 0 then Inr a
      else if asic_size_ss env \<le> com_ss_int + ssj then Inr a
      else if flt_greater (to_float (dsqrt (double_of_int (fsi * fsi + ssj * ssj))))
                          (float_of_int ring_width) then Inr a
      else
        let curr_fs = com_fs_int + fsi + aifs env * asic_size_fs env;
            curr_ss = com_ss_int + ssj + aiss env * asic_size_ss env;
            pix = curr_fs + curr_ss * num_pix_fs env
        in
        bind (rd ''r_map'' (r_map env) pix) (\<lambda>r.
        bind (int_of_flt (rint r)) (\<lambda>curr_radius.
        bind (rd ''rthreshold'' (rthreshold (rstats env)) curr_radius) (\<lambda>curr_threshold.
        bind (rd ''copy'' (copy env) pix) (\<lambda>curr_i.
        bind (if flt_less curr_i curr_threshold then
                bind (rd ''pix_in_peak_map'' peak_map pix) (\<lambda>m.
                  if m = 0 then bind (rd ''mask'' (msk env) pix) (\<lambda>mk. Inr (mk \<noteq> 0))
                  else Inr False)
              else Inr False) (\<lambda>background.
          Inr ((if background
                then a\<lparr>np_sigma := np_sigma a + 1,
                       ring_sum_i := fadd (ring_sum_i a) curr_i,
                       sum_i_squared := fadd (sum_i_squared a) (fmul curr_i curr_i),
                       background_max_i := (if flt_greater curr_i (background_max_i a) then curr_i
                                            else background_max_i a)\<rparr>
                else a)\<lparr>np_counted := np_counted a + 1\<rparr>)))))))"

definition search_in_ring ::
    "panel_env \<Rightarrow> int list \<Rightarrow> int \<Rightarrow> int \<Rightarrow> int \<Rightarrow> flt \<Rightarrow> fault + (flt \<times> flt \<times> flt)" where
  \<comment> \<open>the result is \<^verbatim>\<open>(*local_sigma, *local_offset, *background_max_i)\<close>\<close>
  "search_in_ring env peak_map com_fs_int com_ss_int com_idx bmax =
     (let ring_width = 2 * local_bg_radius env in
      bind (for_loop (- ring_width) ring_width (\<lambda>ssj.
              for_loop (- ring_width) ring_width (\<lambda>fsi.
                search_in_ring_pixel env peak_map ring_width com_fs_int com_ss_int ssj fsi))
              \<lparr>np_sigma = 0, np_counted = 0, ring_sum_i = Finite 0, sum_i_squared = Finite 0,
               background_max_i = bmax\<rparr>) (\<lambda>a.
        if np_sigma a \<noteq> 0 then
          Inr (to_float (dsqrt (fsub (fdiv (sum_i_squared a) (float_of_int (np_sigma a)))
                                     (fmul (fdiv (ring_sum_i a) (float_of_int (np_sigma a)))
                                           (fdiv (ring_sum_i a) (float_of_int (np_sigma a)))))),
               fdiv (ring_sum_i a) (float_of_int (np_sigma a)),
               background_max_i a)
        else
          bind (rd ''r_map'' (r_map env) com_idx) (\<lambda>r.
          bind (int_of_flt (rint r)) (\<lambda>local_radius.
          bind (rd ''roffset'' (roffset (rstats env)) local_radius) (\<lambda>off.
            Inr (to_float (round64 (1 / 100)), off, background_max_i a))))))"

record reint_acc =
  peak_tot_i :: flt
  pk_tot_i_raw :: flt
  peak_max_i :: flt
  pk_max_i_raw :: flt
  re_sum_com_fs :: flt
  re_sum_com_ss :: flt

definition reintegrate_step ::
    "panel_env \<Rightarrow> int list \<Rightarrow> flt \<Rightarrow> int \<Rightarrow> reint_acc \<Rightarrow> fault + reint_acc" where
  \<comment> \<open>the body of the loop over \<^verbatim>\<open>peak_idx\<close>; \<open>peak_pixels_a\<close> is \<^verbatim>\<open>pfinter->peak_pixels\<close>\<close>
  "reintegrate_step env peak_pixels_a local_offset peak_idx a =
     bind (rd ''peak_pixels'' peak_pixels_a peak_idx) (\<lambda>curr_idx.
     bind (rd ''copy'' (copy env) curr_idx) (\<lambda>curr_i_raw.
     bind (c_mod curr_idx (num_pix_fs env)) (\<lambda>curr_fs.
     bind (c_div curr_idx (num_pix_fs env)) (\<lambda>curr_ss.
       let curr_i = fsub curr_i_raw local_offset in
       Inr \<lparr>peak_tot_i = fadd (peak_tot_i a) curr_i,
            pk_tot_i_raw = fadd (pk_tot_i_raw a) curr_i_raw,
            peak_max_i = (if flt_greater curr_i (peak_max_i a) then curr_i else peak_max_i a),
            pk_max_i_raw = (if flt_greater curr_i_raw (pk_max_i_raw a) then curr_i_raw
                            else pk_max_i_raw a),
            re_sum_com_fs = fadd (re_sum_com_fs a) (fmul curr_i (float_of_int curr_fs)),
            re_sum_com_ss = fadd (re_sum_com_ss a) (fmul curr_i (float_of_int curr_ss))\<rparr>))))"

definition reintegrate :: "panel_env \<Rightarrow> int list \<Rightarrow> int \<Rightarrow> flt \<Rightarrow> fault + reint_acc" where
  \<comment> \<open>\<^verbatim>\<open>for (peak_idx = 1; peak_idx < num_pix_in_peak && peak_idx <= max_pix_count; peak_idx++)\<close>\<close>
  "reintegrate env peak_pixels_a num_pix local_offset =
     for_loop 1 (min num_pix (max_pix_count env + 1))
       (reintegrate_step env peak_pixels_a local_offset)
       \<lparr>peak_tot_i = Finite 0, pk_tot_i_raw = Finite 0, peak_max_i = Finite 0,
        pk_max_i_raw = Finite 0, re_sum_com_fs = Finite 0, re_sum_com_ss = Finite 0\<rparr>"

subsection \<open>Storing a peak\<close>

definition store_peak ::
    "panel_env \<Rightarrow> int \<Rightarrow> flt \<Rightarrow> flt \<Rightarrow> int \<Rightarrow> flt \<Rightarrow> flt \<Rightarrow> flt \<Rightarrow> flt \<Rightarrow> pf_state \<Rightarrow> fault + pf_state" where
  "store_peak env n pk_com_fs pk_com_ss pk_com_idx pk_tot pk_max pk_sigma pk_snr s =
     (if peak_count s < max_n_peaks env then
        let pidx = peak_count s; pk = pkdata s in
        bind (wr ''npix'' (npix pk) pidx n) (\<lambda>npix'.
        bind (wr ''com_fs'' (com_fs pk) pidx pk_com_fs) (\<lambda>com_fs'.
        bind (wr ''com_ss'' (com_ss pk) pidx pk_com_ss) (\<lambda>com_ss'.
        bind (wr ''com_index'' (com_index pk) pidx pk_com_idx) (\<lambda>com_index'.
        bind (wr ''tot_i'' (tot_i pk) pidx pk_tot) (\<lambda>tot_i'.
        bind (wr ''max_i'' (max_i pk) pidx pk_max) (\<lambda>max_i'.
        bind (wr ''sigma'' (sigma pk) pidx pk_sigma) (\<lambda>sigma'.
        bind (wr ''snr'' (snr pk) pidx pk_snr) (\<lambda>snr'.
          Inr (s\<lparr>pkdata := \<lparr>npix = npix', com_fs = com_fs', com_ss = com_ss',
                              com_index = com_index', tot_i = tot_i', max_i = max_i',
                              sigma = sigma', snr = snr'\<rparr>,
                  peak_count := peak_count s + 1\<rparr>)))))))))
      else Inr (s\<lparr>peak_count := peak_count s + 1\<rparr>))"

subsection \<open>The scan of a panel\<close>

definition finish_peak :: "panel_env \<Rightarrow> pf_state \<Rightarrow> fault + pf_state" where
  \<comment> \<open>what \<^verbatim>\<open>process_panel\<close> does with a peak once the flood fill has ended\<close>
  "finish_peak env s =
     (if num_pix_in_peak s < min_pix_count env \<or> max_pix_count env < num_pix_in_peak s then Inr s
      else
        let peak_com_fs = to_float (ddiv (sum_com_fs s) (flt_fabs (sum_i s)));
            peak_com_ss = to_float (ddiv (sum_com_ss s) (flt_fabs (sum_i s)))
        in
        bind (int_of_flt (dadd (rint peak_com_fs)
                               (dmul (rint peak_com_ss) (double_of_int (num_pix_fs env))))) (\<lambda>com_idx.
        bind (int_of_flt (rint peak_com_fs)) (\<lambda>cfs.
        bind (int_of_flt (rint peak_com_ss)) (\<lambda>css.
        bind (int_of_flt (float_of_int (cfs - aifs env * asic_size_fs env))) (\<lambda>peak_com_fs_int.
        bind (int_of_flt (float_of_int (css - aiss env * asic_size_ss env))) (\<lambda>peak_com_ss_int.
        bind (search_in_ring env (pix_in_peak_map (pfinter s)) peak_com_fs_int peak_com_ss_int
                com_idx (Finite 0)) (\<lambda>(local_sigma, local_offset, bkgnd_max_i).
        bind (reintegrate env (peak_pixels (pfinter s)) (num_pix_in_peak s) local_offset) (\<lambda>a.
          let peak_com_fs2 = to_float (ddiv (re_sum_com_fs a) (flt_fabs (peak_tot_i a)));
              peak_com_ss2 = to_float (ddiv (re_sum_com_ss a) (flt_fabs (peak_tot_i a)));
              pk_snr = fdiv (peak_tot_i a) local_sigma;
              f_background_thresh = fmul (Finite 1) (fsub bkgnd_max_i local_offset)
          in
          if flt_less pk_snr (min_snr env) then Inr s
          else if flt_less (peak_max_i a) f_background_thresh then Inr s
          else if min_pix_count env \<le> num_pix_in_peak s \<and> num_pix_in_peak s \<le> max_pix_count env
          then
            if flt_eq (peak_tot_i a) (Finite 0) then Inr s
            else
              bind (int_of_flt (dadd (rint peak_com_fs2)
                     (dmul (rint peak_com_ss2) (double_of_int (num_pix_fs env))))) (\<lambda>peak_com_idx.
                store_peak env (num_pix_in_peak s) peak_com_fs2 peak_com_ss2 peak_com_idx
                  (peak_tot_i a) (peak_max_i a) local_sigma pk_snr s)
          else Inr s))))))))"

definition process_candidate :: "panel_env \<Rightarrow> int \<Rightarrow> int \<Rightarrow> int \<Rightarrow> pf_state \<Rightarrow> fault + pf_state" where
  \<comment> \<open>the body of the \<^verbatim>\<open>if\<close> of \<^verbatim>\<open>process_panel\<close>: the pixel seeds a flood fill\<close>
  "process_candidate env pxss pxfs pxidx s =
     bind (wr ''infs'' (infs (pfinter s)) 0 pxfs) (\<lambda>infs'.
     bind (wr ''inss'' (inss (pfinter s)) 0 pxss) (\<lambda>inss'.
     bind (wr ''peak_pixels'' (peak_pixels (pfinter s)) 0 pxidx) (\<lambda>peak_pixels'.
     bind (flood_fill env
             (s\<lparr>pfinter := \<lparr>pix_in_peak_map = pix_in_peak_map (pfinter s), infs = infs',
                             inss = inss', peak_pixels = peak_pixels'\<rparr>,
                num_pix_in_peak := 1, sum_com_fs := Finite 0, sum_com_ss := Finite 0,
                sum_i := Finite 0\<rparr>))
       (finish_peak env))))"

definition process_pixel :: "panel_env \<Rightarrow> int \<Rightarrow> int \<Rightarrow> pf_state \<Rightarrow> fault + pf_state" where
  "process_pixel env pxss pxfs s =
     (let pxidx = (pxss + aiss env * asic_size_ss env) * num_pix_fs env + pxfs
                    + aifs env * asic_size_fs env
      in
      bind (rd ''r_map'' (r_map env) pxidx) (\<lambda>r.
      bind (int_of_flt (rint r)) (\<lambda>curr_rad.
      bind (rd ''rthreshold'' (rthreshold (rstats env)) curr_rad) (\<lambda>curr_thresh.
      bind (rd ''copy'' (copy env) pxidx) (\<lambda>c.
        if flt_greater c curr_thresh then
          bind (rd ''pix_in_peak_map'' (pix_in_peak_map (pfinter s)) pxidx) (\<lambda>m.
            if m = 0 then process_candidate env pxss pxfs pxidx s else Inr s)
        else Inr s)))))"

definition process_panel :: "panel_env \<Rightarrow> pf_state \<Rightarrow> fault + pf_state" where
  "process_panel env s =
     for_loop 1 (asic_size_ss env - 1) (\<lambda>pxss.
       for_loop 1 (asic_size_fs env - 1) (\<lambda>pxfs. process_pixel env pxss pxfs)) s"

subsection \<open>The peak finder\<close>

text \<open>
  \<open>peakfinder8_base\<close> returns its return value, \<^verbatim>\<open>*num_found_peaks\<close> and the arrays of
  the found peaks. \<^verbatim>\<open>calloc\<close> gives arrays of zeros. The arrays of \<^verbatim>\<open>malloc\<close> hold
  indeterminate values: \<open>junk_f\<close> and \<open>junk_i\<close> give them, for each array and index.
\<close>

definition peakfinder8_base ::
    "radial_stats \<Rightarrow> flt list \<Rightarrow> int list \<Rightarrow> flt list \<Rightarrow> int \<Rightarrow> int \<Rightarrow> int \<Rightarrow> int \<Rightarrow> int \<Rightarrow> int \<Rightarrow>
     peakfinder_peak_data \<Rightarrow> int \<Rightarrow> int \<Rightarrow> int \<Rightarrow> flt \<Rightarrow> fault + (int \<times> int \<times> peakfinder_peak_data)" where
  "peakfinder8_base rs data mask_a r_map_a asic_fs num_asics_fs asic_ss num_asics_ss max_peaks
       num_found_peaks pk min_pix max_pix bg_radius snr_min =
     (let n_pix_fs = asic_fs * num_asics_fs;
          n_pix_ss = asic_ss * num_asics_ss;
          num_pix_tot = n_pix_fs * n_pix_ss
      in
      if num_pix_tot < 0 then Inr (1, num_found_peaks, pk)
      else
        bind (for_loop 0 num_pix_tot (\<lambda>i cp. bind (rd ''data'' data i) (wr ''copy'' cp i))
                (replicate (nat num_pix_tot) (Finite 0))) (\<lambda>copy1.
        bind (for_loop 0 num_pix_tot (\<lambda>i cp.
                bind (rd ''copy'' cp i) (\<lambda>c.
                bind (rd ''mask'' mask_a i) (\<lambda>m. wr ''copy'' cp i (fmul c (float_of_int m)))))
                copy1) (\<lambda>copy2.
          if max_pix < 0 then Inr (1, num_found_peaks, pk)
          else
            let env = \<lparr>asic_size_fs = asic_fs, asic_size_ss = asic_ss, num_pix_fs = n_pix_fs,
                       aiss = 0, aifs = 0, rstats = rs, copy = copy2, r_map = r_map_a,
                       msk = mask_a, min_pix_count = min_pix, max_pix_count = max_pix,
                       local_bg_radius = bg_radius, min_snr = snr_min, max_n_peaks = max_peaks\<rparr>;
                s0 = \<lparr>pfinter = \<lparr>pix_in_peak_map = replicate (nat num_pix_tot) 0,
                                  infs = replicate (nat num_pix_tot) 0,
                                  inss = replicate (nat num_pix_tot) 0,
                                  peak_pixels = replicate (nat max_pix) 0\<rparr>,
                      pkdata = pk, peak_count = 0, num_pix_in_peak = 0,
                      sum_com_fs = Finite 0, sum_com_ss = Finite 0, sum_i = Finite 0\<rparr>
            in
            bind (for_loop 0 num_asics_ss (\<lambda>a_ss.
                    for_loop 0 num_asics_fs (\<lambda>a_fs.
                      process_panel (env\<lparr>aiss := a_ss, aifs := a_fs\<rparr>))) s0) (\<lambda>s.
              Inr (0, peak_count s, pkdata s)))))"

definition copy_peak :: "peakfinder_peak_data \<Rightarrow> int \<Rightarrow> tPeakList \<Rightarrow> fault + tPeakList" where
  \<comment> \<open>the body of the last loop of \<^verbatim>\<open>peakfinder8\<close>\<close>
  "copy_peak pk pki peaklist =
     bind (rd ''max_i'' (max_i pk) pki) (\<lambda>v1.
     bind (wr ''peak_maxintensity'' (peak_maxintensity peaklist) pki v1) (\<lambda>a1.
     bind (rd ''tot_i'' (tot_i pk) pki) (\<lambda>v2.
     bind (wr ''peak_totalintensity'' (peak_totalintensity peaklist) pki v2) (\<lambda>a2.
     bind (rd ''sigma'' (sigma pk) pki) (\<lambda>v3.
     bind (wr ''peak_sigma'' (peak_sigma peaklist) pki v3) (\<lambda>a3.
     bind (rd ''snr'' (snr pk) pki) (\<lambda>v4.
     bind (wr ''peak_snr'' (peak_snr peaklist) pki v4) (\<lambda>a4.
     bind (rd ''npix'' (npix pk) pki) (\<lambda>v5.
     bind (wr ''peak_npix'' (peak_npix peaklist) pki (float_of_int v5)) (\<lambda>a5.
     bind (rd ''com_fs'' (com_fs pk) pki) (\<lambda>v6.
     bind (wr ''peak_com_x'' (peak_com_x peaklist) pki v6) (\<lambda>a6.
     bind (rd ''com_ss'' (com_ss pk) pki) (\<lambda>v7.
     bind (wr ''peak_com_y'' (peak_com_y peaklist) pki v7) (\<lambda>a7.
     bind (rd ''com_index'' (com_index pk) pki) (\<lambda>v8.
     bind (wr ''peak_com_index'' (peak_com_index peaklist) pki v8) (\<lambda>a8.
       Inr (peaklist\<lparr>peak_maxintensity := a1, peak_totalintensity := a2, peak_sigma := a3,
                      peak_snr := a4, peak_npix := a5, peak_com_x := a6, peak_com_y := a7,
                      peak_com_index := a8\<rparr>)))))))))))))))))"

definition peakfinder8 ::
    "(string \<Rightarrow> nat \<Rightarrow> flt) \<Rightarrow> (string \<Rightarrow> nat \<Rightarrow> int) \<Rightarrow> tPeakList \<Rightarrow> flt list \<Rightarrow> int list \<Rightarrow> flt list \<Rightarrow>
     int \<Rightarrow> int \<Rightarrow> int \<Rightarrow> int \<Rightarrow> flt \<Rightarrow> flt \<Rightarrow> int \<Rightarrow> int \<Rightarrow> int \<Rightarrow> fault + (int \<times> tPeakList)" where
  "peakfinder8 junk_f junk_i peaklist data mask_a pix_r asic_nx_a asic_ny_a nasics_x_a nasics_y_a
       ADCthresh hitfinderMinSNR hitfinderMinPixCount hitfinderMaxPixCount hitfinderLocalBGRadius =
     (let iterations = 5;
          max_num_peaks = int_of_long (nPeaks_max peaklist);
          n_pix_fs = int_of_long (asic_nx_a * nasics_x_a);
          n_pix_ss = int_of_long (asic_ny_a * nasics_y_a);
          num_pix_tot = int_of_long (asic_nx_a * asic_ny_a * nasics_x_a * nasics_y_a)
      in
      bind (for_loop 0 num_pix_tot (\<lambda>i max_r.
              bind (rd ''pix_r'' pix_r i) (\<lambda>r. Inr (if flt_greater r max_r then r else max_r)))
              (to_float (Finite (- 1000000000)))) (\<lambda>max_r.
      bind (int_of_flt (flt_ceil max_r)) (\<lambda>c.
        let num_rad_bins = c + 1 in
        if num_rad_bins < 0 then Inr (1, peaklist)
        else
          let bins = [0..<nat num_rad_bins];
              rstats0 = \<lparr>roffset = map (junk_f ''roffset'') bins,
                         rthreshold = map (junk_f ''rthreshold'') bins,
                         rsigma = map (junk_f ''rsigma'') bins,
                         rcount = map (junk_i ''rcount'') bins,
                         n_rad_bins = num_rad_bins\<rparr>
          in
          bind (for_loop 0 iterations (\<lambda>it_counter.
                  radial_stats_iteration data n_pix_fs n_pix_ss pix_r mask_a num_rad_bins
                    hitfinderMinSNR ADCthresh)
                  rstats0) (\<lambda>rs.
            if max_num_peaks < 0 then Inr (1, peaklist)
            else
              let slots = [0..<nat max_num_peaks];
                  pkdata0 = \<lparr>npix = map (junk_i ''npix'') slots,
                             com_fs = map (junk_f ''com_fs'') slots,
                             com_ss = map (junk_f ''com_ss'') slots,
                             com_index = map (junk_i ''com_index'') slots,
                             tot_i = map (junk_f ''tot_i'') slots,
                             max_i = map (junk_f ''max_i'') slots,
                             sigma = map (junk_f ''sigma'') slots,
                             snr = map (junk_f ''snr'') slots\<rparr>
              in
              bind (peakfinder8_base rs data mask_a pix_r
                      (int_of_long asic_nx_a) (int_of_long nasics_x_a)
                      (int_of_long asic_ny_a) (int_of_long nasics_y_a)
                      max_num_peaks 0 pkdata0
                      (int_of_long hitfinderMinPixCount) (int_of_long hitfinderMaxPixCount)
                      (int_of_long hitfinderLocalBGRadius) hitfinderMinSNR) (\<lambda>(ret, num_found, pk).
                if ret \<noteq> 0 then Inr (1, peaklist)
                else
                  let peaks_to_add = (if max_num_peaks < num_found then max_num_peaks
                                      else num_found)
                  in
                  bind (for_loop 0 peaks_to_add (copy_peak pk) peaklist) (\<lambda>pl.
                    Inr (0, pl\<lparr>nPeaks := peaks_to_add\<rparr>)))))))"

subsection \<open>What the scan of a panel keeps\<close>

definition storage_arrays :: "string list" where
  "storage_arrays = [''npix'', ''com_fs'', ''com_ss'', ''com_index'', ''tot_i'', ''max_i'',
     ''sigma'', ''snr'', ''peak_maxintensity'', ''peak_totalintensity'', ''peak_sigma'',
     ''peak_snr'', ''peak_npix'', ''peak_com_x'', ''peak_com_y'', ''peak_com_index'']"

fun guarded :: "fault \<Rightarrow> bool" where
  "guarded (OutOfBounds Wr name i) = (name \<notin> set storage_arrays)"
| "guarded (OutOfBounds Rd name i) = (name \<noteq> ''peak_pixels'')"
| "guarded e = True"

definition same_store :: "pf_state \<Rightarrow> pf_state \<Rightarrow> bool" where
  \<comment> \<open>the flood fill changes neither the found peaks nor the size of \<^verbatim>\<open>peak_pixels\<close>\<close>
  "same_store s s' \<longleftrightarrow>
     pkdata s' = pkdata s \<and> peak_count s' = peak_count s \<and>
     length (peak_pixels (pfinter s')) = length (peak_pixels (pfinter s))"

lemma same_store_refl: "same_store s s"
  by (simp add: same_store_def)

lemma same_store_trans: "same_store s t \<Longrightarrow> same_store t u \<Longrightarrow> same_store s u"
  by (simp add: same_store_def)

lemma wp_post: "wp m P E \<Longrightarrow> (\<And>x. P x \<Longrightarrow> Q x) \<Longrightarrow> wp m Q E"
  by (erule wp_weaken) auto

lemma wp_c_div: "(b \<noteq> 0 \<Longrightarrow> Q (sgn a * sgn b * (\<bar>a\<bar> div \<bar>b\<bar>))) \<Longrightarrow> E DivisionByZero \<Longrightarrow> wp (c_div a b) Q E"
  by (simp add: wp_def c_div_def)

lemma wp_c_mod: "(b \<noteq> 0 \<Longrightarrow> Q (sgn a * (\<bar>a\<bar> mod \<bar>b\<bar>))) \<Longrightarrow> E DivisionByZero \<Longrightarrow> wp (c_mod a b) Q E"
  by (simp add: wp_def c_mod_def)

lemma wp_case_prod3:
  "(\<And>a b c. wp (f a b c) Q E) \<Longrightarrow> wp (case x of (a, b, c) \<Rightarrow> f a b c) Q E"
  by (cases x) auto

lemma add_pixel_to_peak_frame:
  "wp (add_pixel_to_peak env new_fs new_ss curr_fs curr_ss pix curr_i s) (same_store s) guarded"
  unfolding add_pixel_to_peak_def same_store_def
  by (intro wp_intros) (simp_all (no_asm_simp) add: storage_arrays_def)

lemma peak_search_step_frame:
  "wp (peak_search_step env p k s) (same_store s) guarded"
  unfolding peak_search_step_def Let_def
  by (intro wp_intros add_pixel_to_peak_frame)
    (simp_all (no_asm_simp) add: storage_arrays_def same_store_refl)

lemma peak_search_frame:
  "wp (peak_search env p s) (same_store s) guarded"
  unfolding peak_search_def
proof (rule wp_for_loop[where I = "\<lambda>i. same_store s"])
  fix i t assume "same_store s t"
  then show "wp (peak_search_step env p i t) (same_store s) guarded"
    by (intro wp_post[OF peak_search_step_frame]) (rule same_store_trans)
qed (simp_all add: same_store_refl)

lemma flood_pass_frame:
  "wp (flood_pass env p s) (same_store s) guarded"
proof (induction env p s rule: flood_pass.induct)
  case (1 env p s)
  show ?case
  proof (cases "p < num_pix_in_peak s")
    case True
    show ?thesis
    proof (cases "peak_search env p s")
      case (Inl e)
      with wp_Inl_D[OF peak_search_frame Inl] True show ?thesis
        by (subst flood_pass.simps) (simp add: wp_def)
    next
      case (Inr s1)
      from wp_Inr_D[OF peak_search_frame Inr] have ss: "same_store s s1" .
      have ih: "wp (flood_pass env (p + 1) s1) (same_store s1) guarded"
        by (rule "1.IH"[OF True Inr])
      have "wp (flood_pass env (p + 1) s1) (same_store s) guarded"
      proof (rule wp_post[OF ih])
        fix x assume "same_store s1 x"
        then show "same_store s x" by (rule same_store_trans[OF ss])
      qed
      with True Inr show ?thesis
        by (subst flood_pass.simps) simp
    qed
  next
    case False
    then show ?thesis by (subst flood_pass.simps) (simp add: wp_def same_store_refl)
  qed
qed

lemma flood_fill_frame:
  "wp (flood_fill env s) (same_store s) guarded"
proof (induction env s rule: flood_fill.induct)
  case (1 env s)
  show ?case
  proof (cases "flood_pass env 0 s")
    case (Inl e)
    with wp_Inl_D[OF flood_pass_frame Inl] show ?thesis
      by (subst flood_fill.simps) (simp add: wp_def)
  next
    case (Inr s1)
    from wp_Inr_D[OF flood_pass_frame Inr] have i1: "same_store s s1" .
    show ?thesis
    proof (cases "num_pix_in_peak s \<noteq> num_pix_in_peak s1")
      case True
      have ih: "wp (flood_fill env s1) (same_store s1) guarded"
        by (rule "1.IH"[OF Inr True])
      have "wp (flood_fill env s1) (same_store s) guarded"
      proof (rule wp_post[OF ih])
        fix x assume "same_store s1 x"
        then show "same_store s x" by (rule same_store_trans[OF i1])
      qed
      with True Inr show ?thesis
        by (subst flood_fill.simps) simp
    next
      case False
      with i1 Inr show ?thesis by (subst flood_fill.simps) (simp add: wp_def)
    qed
  qed
qed

lemma search_in_ring_pixel_safe:
  "wp (search_in_ring_pixel env peak_map ring_width com_fs_int com_ss_int ssj fsi a) (\<lambda>a. True) guarded"
  unfolding search_in_ring_pixel_def Let_def
  by (intro wp_intros) (simp_all (no_asm_simp) add: storage_arrays_def)

lemma wp_search_in_ring:
  "(\<And>x. Q x) \<Longrightarrow> wp (search_in_ring env peak_map com_fs_int com_ss_int com_idx bmax) Q guarded"
  unfolding search_in_ring_def Let_def
  apply (intro wp_intros)
       apply (rule wp_for_loop[where I = "\<lambda>i a. True"])
         apply simp
        apply (rule wp_for_loop[where I = "\<lambda>i a. True"])
          apply simp
         apply (rule wp_post[OF search_in_ring_pixel_safe])
         apply simp
        apply simp
       apply (intro wp_intros)
  by (simp_all (no_asm_simp) add: storage_arrays_def)

text \<open>
  The scan of a panel keeps every property \<open>I\<close> of the state that the flood fill cannot
  change and that storing a peak keeps, and raises only the faults \<open>E\<close> allows.
\<close>

lemma finish_peak_wp:
  assumes store: "\<And>s n a b c d e f g. I s \<Longrightarrow> wp (store_peak env n a b c d e f g s) I E"
    and reint: "\<And>s off. I s \<Longrightarrow> num_pix_in_peak s \<le> max_pix_count env \<Longrightarrow>
        wp (reintegrate env (peak_pixels (pfinter s)) (num_pix_in_peak s) off) (\<lambda>a. True) E"
    and perm: "\<And>e. guarded e \<Longrightarrow> E e"
    and inv: "I s"
  shows "wp (finish_peak env s) I E"
proof -
  have sr: "wp (search_in_ring env pm a b c d) Q E" if "\<And>x. Q x" for pm a b c d Q
    by (rule wp_weaken[OF wp_search_in_ring[where Q = Q]]) (auto intro: that perm)
  have re: "wp (reintegrate env (peak_pixels (pfinter s)) (num_pix_in_peak s) off) Q E"
    if "num_pix_in_peak s \<le> max_pix_count env" "\<And>a. Q a" for off Q
    by (rule wp_post[OF reint[OF inv that(1)]]) (rule that(2))
  have bc: "E BadConversion" by (rule perm) simp
  show ?thesis
    unfolding finish_peak_def Let_def
    by (intro wp_intros wp_case_prod3 sr re store inv bc) (auto simp: inv)
qed

lemma process_candidate_wp:
  assumes store: "\<And>s n a b c d e f g. I s \<Longrightarrow> wp (store_peak env n a b c d e f g s) I E"
    and reint: "\<And>s off. I s \<Longrightarrow> num_pix_in_peak s \<le> max_pix_count env \<Longrightarrow>
        wp (reintegrate env (peak_pixels (pfinter s)) (num_pix_in_peak s) off) (\<lambda>a. True) E"
    and perm: "\<And>e. guarded e \<Longrightarrow> E e"
    and frame: "\<And>s s'. I s \<Longrightarrow> same_store s s' \<Longrightarrow> I s'"
    and inv: "I s"
  shows "wp (process_candidate env pxss pxfs pxidx s) I E"
proof -
  have fin: "wp (bind (flood_fill env t) (finish_peak env)) I E" if t: "same_store s t" for t
  proof (rule wp_bind, rule wp_weaken[OF flood_fill_frame[of env t]])
    fix t' assume "same_store t t'"
    with t have "same_store s t'" by (rule same_store_trans)
    with inv have "I t'" by (rule frame)
    show "wp (finish_peak env t') I E"
    proof (rule finish_peak_wp[where I = I and E = E])
      show "I t'" by fact
    qed (rule store reint perm; assumption)+
  qed (rule perm)
  have w: "E (OutOfBounds Wr ''infs'' i)" "E (OutOfBounds Wr ''inss'' i)"
      "E (OutOfBounds Wr ''peak_pixels'' i)" for i
    by (rule perm, simp add: storage_arrays_def)+
  show ?thesis
    unfolding process_candidate_def
    by (intro wp_bind wp_wr w fin) (simp add: same_store_def)
qed

lemma process_pixel_wp:
  assumes store: "\<And>s n a b c d e f g. I s \<Longrightarrow> wp (store_peak env n a b c d e f g s) I E"
    and reint: "\<And>s off. I s \<Longrightarrow> num_pix_in_peak s \<le> max_pix_count env \<Longrightarrow>
        wp (reintegrate env (peak_pixels (pfinter s)) (num_pix_in_peak s) off) (\<lambda>a. True) E"
    and perm: "\<And>e. guarded e \<Longrightarrow> E e"
    and frame: "\<And>s s'. I s \<Longrightarrow> same_store s s' \<Longrightarrow> I s'"
    and inv: "I s"
  shows "wp (process_pixel env pxss pxfs s) I E"
proof -
  have cand: "wp (process_candidate env pxss pxfs pxidx s) I E" for pxidx
  proof (rule process_candidate_wp[where I = I and E = E])
    show "I s" by fact
  qed (rule store reint perm frame; assumption)+
  have r: "E (OutOfBounds Rd ''r_map'' i)" "E (OutOfBounds Rd ''rthreshold'' i)"
      "E (OutOfBounds Rd ''copy'' i)" "E (OutOfBounds Rd ''pix_in_peak_map'' i)"
      "E BadConversion" for i
    by (rule perm, simp)+
  show ?thesis
    unfolding process_pixel_def Let_def
    by (intro wp_intros cand r) (simp_all (no_asm_simp) add: inv)
qed

lemma process_panel_wp:
  assumes store: "\<And>s n a b c d e f g. I s \<Longrightarrow> wp (store_peak env n a b c d e f g s) I E"
    and reint: "\<And>s off. I s \<Longrightarrow> num_pix_in_peak s \<le> max_pix_count env \<Longrightarrow>
        wp (reintegrate env (peak_pixels (pfinter s)) (num_pix_in_peak s) off) (\<lambda>a. True) E"
    and perm: "\<And>e. guarded e \<Longrightarrow> E e"
    and frame: "\<And>s s'. I s \<Longrightarrow> same_store s s' \<Longrightarrow> I s'"
    and inv: "I s"
  shows "wp (process_panel env s) I E"
  unfolding process_panel_def
proof (rule wp_for_loop[where I = "\<lambda>i. I"])
  fix pxss :: int and t :: pf_state
  assume t: "I t"
  show "wp (for_loop 1 (asic_size_fs env - 1) (\<lambda>pxfs. process_pixel env pxss pxfs) t) I E"
  proof (rule wp_for_loop[where I = "\<lambda>i. I"])
    fix pxfs :: int and u :: pf_state
    assume u: "I u"
    show "wp (process_pixel env pxss pxfs u) I E"
    proof (rule process_pixel_wp[where I = I and E = E])
      show "I u" by fact
    qed (rule store reint perm frame; assumption)+
  qed (simp_all add: t)
qed (simp_all add: inv)

subsection \<open>Reads of \<^verbatim>\<open>peak_pixels\<close>\<close>

lemma reintegrate_safe:
  assumes n: "num_pix \<le> max_pix_count env"
    and len: "max_pix_count env \<le> int (length peak_pixels_a)"
  shows "wp (reintegrate env peak_pixels_a num_pix off) (\<lambda>a. True) guarded"
  unfolding reintegrate_def
proof (rule wp_for_loop[where I = "\<lambda>i a. True"])
  fix i :: int and a :: reint_acc
  assume i: "1 \<le> i" "i < min num_pix (max_pix_count env + 1)"
  then have b: "0 \<le> i" "i < int (length peak_pixels_a)" using n len by auto
  show "wp (reintegrate_step env peak_pixels_a off i a) (\<lambda>a. True) guarded"
    unfolding reintegrate_step_def Let_def
    by (intro wp_intros wp_c_div wp_c_mod) (use b in simp_all)
qed simp_all

lemma store_peak_frame:
  "wp (store_peak env n a b c d e f g s)
      (\<lambda>s'. pfinter s' = pfinter s) (\<lambda>e. \<exists>name i. e = OutOfBounds Wr name i)"
  unfolding store_peak_def Let_def
  by (intro wp_intros) (simp_all (no_asm_simp))

definition peak_pixels_read :: "fault \<Rightarrow> bool" where
  \<comment> \<open>the fault is a read of \<^verbatim>\<open>peak_pixels\<close> outside the array\<close>
  "peak_pixels_read e \<longleftrightarrow> (\<exists>i. e = OutOfBounds Rd ''peak_pixels'' i)"

lemma process_panel_peak_pixels_inv:
  assumes "max_pix_count env \<le> int (length (peak_pixels (pfinter s)))"
  shows "wp (process_panel env s)
           (\<lambda>s'. max_pix_count env \<le> int (length (peak_pixels (pfinter s'))))
           (\<lambda>e. \<not> peak_pixels_read e)"
proof -
  define I where "I = (\<lambda>s :: pf_state. max_pix_count env \<le> int (length (peak_pixels (pfinter s))))"
  define E where "E = (\<lambda>e. \<not> peak_pixels_read e)"
  have perm: "E e" if "guarded e" for e
    using that unfolding E_def peak_pixels_read_def by (cases e) auto
  have "wp (process_panel env s) I E"
  proof (rule process_panel_wp[where I = I and E = E])
    show "wp (store_peak env n a b c d e f g t) I E" if "I t" for t n a b c d e f g
      using that unfolding I_def E_def peak_pixels_read_def
      by (intro wp_weaken[OF store_peak_frame]) auto
    show "wp (reintegrate env (peak_pixels (pfinter t)) (num_pix_in_peak t) off) (\<lambda>a. True) E"
      if "I t" "num_pix_in_peak t \<le> max_pix_count env" for t off
      using that unfolding I_def
      by (intro wp_weaken[OF reintegrate_safe] perm) simp_all
    show "I t'" if "I t" "same_store t t'" for t t'
      using that by (simp add: I_def same_store_def)
    show "I s" using assms by (simp add: I_def)
  qed (rule perm)
  then show ?thesis by (simp add: I_def E_def)
qed

lemma peakfinder8_base_peak_pixels:
  "wp (peakfinder8_base rs data mask_a r_map_a asic_fs num_asics_fs asic_ss num_asics_ss max_peaks
         found pk min_pix max_pix bg_radius snr_min)
      (\<lambda>r. True) (\<lambda>e. \<not> peak_pixels_read e)"
proof -
  have copy_loops: "wp (for_loop 0 n body (cp :: flt list)) Q (\<lambda>e. \<not> peak_pixels_read e)"
    if q: "\<And>x. Q x" and b: "\<And>i c. wp (body i c) (\<lambda>x. True) (\<lambda>e. \<not> peak_pixels_read e)"
    for n body cp Q
    by (rule wp_for_loop[where I = "\<lambda>i c. True"]) (simp_all add: q b)
  have panels: "wp (for_loop 0 num_asics_ss (\<lambda>a_ss.
                    for_loop 0 num_asics_fs (\<lambda>a_fs.
                      process_panel (env\<lparr>aiss := a_ss, aifs := a_fs\<rparr>))) s0) Q
                  (\<lambda>e. \<not> peak_pixels_read e)"
    if q: "\<And>x. Q x" and l: "max_pix_count env \<le> int (length (peak_pixels (pfinter s0)))"
    for env s0 Q
  proof (rule wp_for_loop[where I = "\<lambda>i s. max_pix_count env \<le> int (length (peak_pixels (pfinter s)))"])
    fix a_ss :: int and s :: pf_state
    assume s: "max_pix_count env \<le> int (length (peak_pixels (pfinter s)))"
    show "wp (for_loop 0 num_asics_fs (\<lambda>a_fs. process_panel (env\<lparr>aiss := a_ss, aifs := a_fs\<rparr>)) s)
            (\<lambda>s. max_pix_count env \<le> int (length (peak_pixels (pfinter s))))
            (\<lambda>e. \<not> peak_pixels_read e)"
    proof (rule wp_for_loop[where I = "\<lambda>i s. max_pix_count env \<le> int (length (peak_pixels (pfinter s)))"])
      fix a_fs :: int and t :: pf_state
      assume t: "max_pix_count env \<le> int (length (peak_pixels (pfinter t)))"
      from process_panel_peak_pixels_inv[of "env\<lparr>aiss := a_ss, aifs := a_fs\<rparr>" t] t
      show "wp (process_panel (env\<lparr>aiss := a_ss, aifs := a_fs\<rparr>) t)
              (\<lambda>s. max_pix_count env \<le> int (length (peak_pixels (pfinter s))))
              (\<lambda>e. \<not> peak_pixels_read e)"
        by simp
    qed (simp_all add: s)
  qed (simp_all add: q l)
  show ?thesis
    unfolding peakfinder8_base_def Let_def
    apply (intro wp_if wp_Inr wp_bind copy_loops panels TrueI)
    subgoal by simp
    subgoal by (intro wp_intros) (simp_all add: peak_pixels_read_def)
    subgoal by (intro wp_intros) (simp_all add: peak_pixels_read_def)
    done
qed

definition rstats_p :: radial_stats where
  "rstats_p = \<lparr>roffset = [Finite 0], rthreshold = [Finite 10], rsigma = [Finite 0], rcount = [15], n_rad_bins = 1\<rparr>"

definition image_p :: "flt list" where
  "image_p = [Finite 0, Finite 0, Finite 0, Finite 0, Finite 0,
              Finite 0, Finite 100, Finite 0, Finite 100, Finite 0,
              Finite 0, Finite 0, Finite 0, Finite 0, Finite 0]"

definition env_p :: panel_env where
  "env_p = \<lparr>asic_size_fs = 5, asic_size_ss = 3, num_pix_fs = 5, aiss = 0, aifs = 0,
     rstats = rstats_p, copy = image_p, r_map = replicate 15 (Finite 0), msk = replicate 15 1,
     min_pix_count = 1, max_pix_count = 10, local_bg_radius = 0, min_snr = Finite 5, max_n_peaks = 1\<rparr>"

definition state_p :: pf_state where
  "state_p = \<lparr>pfinter = \<lparr>pix_in_peak_map = replicate 15 0, infs = replicate 15 0, inss = replicate 15 0,
        peak_pixels = replicate 10 0\<rparr>,
     pkdata = \<lparr>npix = [0], com_fs = [Finite 0], com_ss = [Finite 0], com_index = [0],
        tot_i = [Finite 0], max_i = [Finite 0], sigma = [Finite 0], snr = [Finite 0]\<rparr>,
     peak_count = 0, num_pix_in_peak = 0, sum_com_fs = Finite 0, sum_com_ss = Finite 0, sum_i = Finite 0\<rparr>"


text \<open>
  C9 (reads of \<^verbatim>\<open>peak_pixels\<close>). A read of \<^verbatim>\<open>pfinter->peak_pixels\<close> outside the array
  is the fault \<open>OutOfBounds Rd ''peak_pixels'' i\<close>. When the array has the length
  \<^verbatim>\<open>max_pix_count\<close> or more, no run of \<^verbatim>\<open>process_panel\<close> ends with that fault: it
  returns, or it stops at an access of another kind. \<^verbatim>\<open>peakfinder8_base\<close> allocates the
  array with the length \<^verbatim>\<open>max_pix_count\<close>, so none of its runs ends with that fault.
\<close>

theorem peak_pixels_reads_in_bounds:
  "(max_pix_count env \<le> int (length (peak_pixels (pfinter s))) \<longrightarrow>
      (\<forall>i. process_panel env s \<noteq> Inl (OutOfBounds Rd ''peak_pixels'' i))) \<and>
   (\<forall>i. peakfinder8_base rs data mask_a r_map_a asic_fs num_asics_fs asic_ss num_asics_ss max_peaks
           found pk min_pix max_pix bg_radius snr_min \<noteq> Inl (OutOfBounds Rd ''peak_pixels'' i))"
proof (intro conjI impI allI)
  fix i
  assume l: "max_pix_count env \<le> int (length (peak_pixels (pfinter s)))"
  show "process_panel env s \<noteq> Inl (OutOfBounds Rd ''peak_pixels'' i)"
  proof
    assume "process_panel env s = Inl (OutOfBounds Rd ''peak_pixels'' i)"
    from wp_Inl_D[OF process_panel_peak_pixels_inv[OF l] this] show False
      by (simp add: peak_pixels_read_def)
  qed
next
  fix i
  show "peakfinder8_base rs data mask_a r_map_a asic_fs num_asics_fs asic_ss num_asics_ss max_peaks
           found pk min_pix max_pix bg_radius snr_min \<noteq> Inl (OutOfBounds Rd ''peak_pixels'' i)"
  proof
    assume "peakfinder8_base rs data mask_a r_map_a asic_fs num_asics_fs asic_ss num_asics_ss max_peaks
           found pk min_pix max_pix bg_radius snr_min = Inl (OutOfBounds Rd ''peak_pixels'' i)"
    from wp_Inl_D[OF peakfinder8_base_peak_pixels this] show False
      by (simp add: peak_pixels_read_def)
  qed
qed

theorem peak_pixels_reads_in_bounds_witness:
  "max_pix_count env_p \<le> int (length (peak_pixels (pfinter state_p))) \<and>
   (\<forall>i. process_panel env_p state_p \<noteq> Inl (OutOfBounds Rd ''peak_pixels'' i)) \<and>
   (\<forall>i. peakfinder8_base rstats_p image_p (replicate 15 1) (replicate 15 (Finite 0)) 5 1 3 1 1
           0 (pkdata state_p) 1 10 0 (Finite 5) \<noteq> Inl (OutOfBounds Rd ''peak_pixels'' i))"
  using peak_pixels_reads_in_bounds[of env_p state_p rstats_p image_p "replicate 15 1"
      "replicate 15 (Finite 0)" 5 1 3 1 1 0 "pkdata state_p" 1 10 0 "Finite 5"]
  by (simp add: env_p_def state_p_def)

section \<open>Radial background subtraction (radialBackgroundSubtraction.cpp)\<close>

text \<open>
  The headers \<^verbatim>\<open>Point2D.h\<close> and \<^verbatim>\<open>ImageRectangle.h\<close> are not among the sources. A
  vector of Eigen with two \<^verbatim>\<open>float\<close> components is a pair.
\<close>

record 'a Point2D =
  \<comment> \<open>Modelled from the spec: the type \<^verbatim>\<open>Point2D\<close> of the missing header, a point of the raw
      image given by its two coordinates, read with \<^verbatim>\<open>getX()\<close> and \<^verbatim>\<open>getY()\<close>.\<close>
  getX :: 'a
  getY :: 'a

record 'a ImageRectangle =
  \<comment> \<open>Modelled from the spec: the type \<^verbatim>\<open>ImageRectangle\<close> of the missing header, the raw
      rectangle of a panel given by its upper left and its lower right corner.\<close>
  getUpperLeftCorner :: "'a Point2D"
  getLowerRightCorner :: "'a Point2D"

record detectorPosition_t =
  min_fs :: int
  min_ss :: int
  max_fs :: int
  max_ss :: int
  fs :: "flt \<times> flt"
  ss :: "flt \<times> flt"
  corner :: "flt \<times> flt"
  rawCoordinates_uint16 :: "int ImageRectangle"
  rawCoordinates_float :: "flt ImageRectangle"
  virtualZeroPositionRaw :: "flt \<times> flt"

type_synonym detectorPositions_t = "detectorPosition_t list list"

record radialRankFilter_accuracyConstants_t =
  minValuesPerBin :: int
  minBinWidth :: int
  maxConsideredValuesPerBin :: int
  detektorsToConsiderSubscripts :: "int Point2D list"
  detektorsToCorrectSubscripts :: "int Point2D list"
  rank :: flt

record radialRankFilter_precomputedConstants_t =
  sparseLinearDataToConsiderIndices :: "int list"
  sparseBinIndices :: "int list"
  binCount :: int
  dataCountPerBin :: "int list"
  intraBinIndices :: "int list"
  binRadii :: "flt list"
  intraBinInterpolationConstant :: "flt list"
  accuracyConstants :: radialRankFilter_accuracyConstants_t

definition getLinearIndexFromMatrixIndex :: "int \<Rightarrow> int \<Rightarrow> detectorRawFormat_t \<Rightarrow> int" where
  "getLinearIndexFromMatrixIndex x y detectorRawFormat = y * pix_nx detectorRawFormat + x"

text \<open>
  \<^verbatim>\<open>i < binsWithData.size() - 1\<close> is a comparison of unsigned numbers: when the vector is
  empty the bound is the greatest \<^verbatim>\<open>size_t\<close>, and the first iteration leaves the vector.
\<close>

definition inner_bins :: "string \<Rightarrow> 'a list \<Rightarrow> (int \<Rightarrow> 's \<Rightarrow> fault + 's) \<Rightarrow> 's \<Rightarrow> fault + 's" where
  \<comment> \<open>\<^verbatim>\<open>for (uint32_t i = 1; i < v.size() - 1; ++i)\<close> with a body that accesses \<^verbatim>\<open>v[i]\<close>\<close>
  "inner_bins name v body s =
     (if v = [] then Inl (OutOfBounds Rd name 1)
      else for_loop 1 (int (length v) - 1) body s)"

definition gatherBinsData ::
    "flt list \<Rightarrow> radialRankFilter_precomputedConstants_t \<Rightarrow> fault + flt list list" where
  "gatherBinsData data_linear precomputedConstants =
     (let binsWithData = replicate (nat (binCount precomputedConstants)) [] in
      bind (inner_bins ''binsWithData'' binsWithData (\<lambda>i (u :: unit).
              bind (rd ''dataCountPerBin'' (dataCountPerBin precomputedConstants) i) (\<lambda>n. Inr u)) ())
        (\<lambda>u.
      for_loop 0 (int (length (sparseLinearDataToConsiderIndices precomputedConstants)))
        (\<lambda>i bins.
           bind (rd ''sparseBinIndices'' (sparseBinIndices precomputedConstants) i) (\<lambda>b.
           bind (rd ''sparseLinearDataToConsiderIndices''
                   (sparseLinearDataToConsiderIndices precomputedConstants) i) (\<lambda>li.
           bind (rd ''data_linear'' data_linear li) (\<lambda>v.
           bind (rd ''binsWithData'' bins b) (\<lambda>bin.
             wr ''binsWithData'' bins b (bin @ [v]))))))
        binsWithData))"

text \<open>
  \<^verbatim>\<open>nth_element\<close> puts at the position \<open>n\<close> the element that a sort with \<^verbatim>\<open><\<close> puts
  there. The sort is an insertion sort; the result of \<^verbatim>\<open>nth_element\<close> is not specified
  when a value is a NaN.
\<close>

fun insort_flt :: "flt \<Rightarrow> flt list \<Rightarrow> flt list" where
  "insort_flt x [] = [x]"
| "insort_flt x (y # ys) = (if flt_less y x then y # insort_flt x ys else x # y # ys)"

definition sort_flt :: "flt list \<Rightarrow> flt list" where
  "sort_flt xs = foldr insort_flt xs []"

definition uint32_of_flt :: "flt \<Rightarrow> fault + int" where
  \<comment> \<open>the conversion of a \<^verbatim>\<open>float\<close> to \<^verbatim>\<open>uint32_t\<close>: truncation, undefined outside the range\<close>
  "uint32_of_flt x =
     (case x of
        Finite a \<Rightarrow> (let n = (if 0 \<le> a then \<lfloor>a\<rfloor> else \<lceil>a\<rceil>)
                     in if 0 \<le> n \<and> n < 4294967296 then Inr n else Inl BadConversion)
      | _ \<Rightarrow> Inl BadConversion)"

definition computeBinValues_bin :: "flt list list \<Rightarrow> flt \<Rightarrow> int \<Rightarrow> flt list \<Rightarrow> fault + flt list" where
  \<comment> \<open>the body of the loop of \<^verbatim>\<open>computeBinValues\<close>\<close>
  "computeBinValues_bin binsWithData rank_a i binValues =
     bind (rd ''binsWithData'' binsWithData i) (\<lambda>bin.
     bind (uint32_of_flt (fmul rank_a (float_of_int (int (length bin))))) (\<lambda>r.
       let intRank = max r 1 - 1 in
       bind (rd ''binsWithData[i]'' (sort_flt bin) intRank) (wr ''binValues'' binValues i)))"

definition computeBinValues ::
    "flt list list \<Rightarrow> radialRankFilter_precomputedConstants_t \<Rightarrow>
     radialRankFilter_accuracyConstants_t \<Rightarrow> fault + flt list" where
  "computeBinValues binsWithData precomputedConstants accuracy =
     (let radii = binRadii precomputedConstants in
      bind (inner_bins ''binsWithData'' binsWithData
              (computeBinValues_bin binsWithData (rank accuracy))
              (replicate (length binsWithData) (Finite 0))) (\<lambda>binValues1.
      bind (rd ''binValues'' binValues1 1) (\<lambda>v1.
      bind (rd ''binValues'' binValues1 2) (\<lambda>v2.
      bind (rd ''binRadii'' radii 2) (\<lambda>r2.
      bind (rd ''binRadii'' radii 1) (\<lambda>r1.
      bind (rd ''binRadii'' radii 0) (\<lambda>r0.
      bind (wr ''binValues'' binValues1 0
              (fadd v1 (fmul (fdiv (fsub v1 v2) (fsub r2 r1)) (fsub r1 r0)))) (\<lambda>binValues2.
      bind (rd ''binValues'' binValues2 (int (length binValues2) - 1 - 1)) (\<lambda>w1.
      bind (rd ''binValues'' binValues2 (int (length binValues2) - 1 - 2)) (\<lambda>w2.
      bind (rd ''binRadii'' radii (int (length binValues2) - 1 - 1)) (\<lambda>s1.
      bind (rd ''binRadii'' radii (int (length binValues2) - 1 - 2)) (\<lambda>s2.
      bind (rd ''binRadii'' radii (int (length binValues2) - 1)) (\<lambda>s3.
        wr ''binValues'' binValues2 (int (length binValues2) - 1)
          (fadd w1 (fmul (fdiv (fsub w1 w2) (fsub s1 s2)) (fsub s3 s1))))))))))))))))"

definition subtract_background ::
    "flt list \<Rightarrow> radialRankFilter_precomputedConstants_t \<Rightarrow> int \<Rightarrow> flt list \<Rightarrow> fault + flt list" where
  \<comment> \<open>the body of the loops of \<^verbatim>\<open>applyRadialRankFilterBackgroundSubtraction\<close> at the pixel
      \<open>linearIndex\<close>\<close>
  "subtract_background binValues precomputedConstants linearIndex data_linear =
     bind (rd ''data_linear'' data_linear linearIndex) (\<lambda>d.
       if flt_neq d FLT_MAX then
         bind (rd ''intraBinIndices'' (intraBinIndices precomputedConstants) linearIndex) (\<lambda>k.
         bind (rd ''binValues'' binValues k) (\<lambda>v0.
         bind (rd ''intraBinInterpolationConstant''
                 (intraBinInterpolationConstant precomputedConstants) linearIndex) (\<lambda>t.
         bind (rd ''binValues'' binValues (k + 1)) (\<lambda>v1.
           wr ''data_linear'' data_linear linearIndex
             (fsub d (fadd v0 (fmul t (fsub v1 v0))))))))
       else Inr data_linear)"

definition uint16_of_int :: "int \<Rightarrow> int" where
  "uint16_of_int n = n mod 65536"

definition applyRadialRankFilterBackgroundSubtraction ::
    "flt list \<Rightarrow> radialRankFilter_precomputedConstants_t \<Rightarrow> detectorRawFormat_t \<Rightarrow>
     detectorPositions_t \<Rightarrow> fault + flt list" where
  "applyRadialRankFilterBackgroundSubtraction data_linear precomputedConstants detectorRawFormat
       detectorPositions =
     (let accuracy = accuracyConstants precomputedConstants;
          subscripts = detektorsToCorrectSubscripts accuracy
      in
      bind (gatherBinsData data_linear precomputedConstants) (\<lambda>binsWithData.
      bind (computeBinValues binsWithData precomputedConstants accuracy) (\<lambda>binValues.
        for_loop 0 (int (length subscripts)) (\<lambda>n data1.
          let detektorToCorrectIndex = subscripts ! nat n in
          bind (rd ''detectorPositions'' detectorPositions (getY detektorToCorrectIndex)) (\<lambda>row.
          bind (rd ''detectorPositions[y]'' row (getX detektorToCorrectIndex)) (\<lambda>detectorPosition.
            let r = rawCoordinates_uint16 detectorPosition in
            for_loop (uint16_of_int (getY (getUpperLeftCorner r) + 1))
                     (getY (getLowerRightCorner r) - 1 + 1) (\<lambda>y.
              for_loop (uint16_of_int (getX (getUpperLeftCorner r) + 1))
                       (getX (getLowerRightCorner r) - 1 + 1) (\<lambda>x.
                subtract_background binValues precomputedConstants
                  (getLinearIndexFromMatrixIndex x y detectorRawFormat))) data1)))
          data_linear)))"

definition fmt_c5 :: detectorRawFormat_t where
  "fmt_c5 = \<lparr>asic_nx = 4, asic_ny = 3, nasics_x = 1, nasics_y = 1, pix_nx = 4, pix_ny = 3, pix_nn = 12\<rparr>"

definition positions_c5 :: detectorPositions_t where
  "positions_c5 =
     [[\<lparr>min_fs = 0, min_ss = 0, max_fs = 3, max_ss = 2,
        fs = (Finite 1, Finite 0), ss = (Finite 0, Finite 1), corner = (Finite 0, Finite 0),
        rawCoordinates_uint16 =
          \<lparr>getUpperLeftCorner = \<lparr>getX = 0, getY = 0\<rparr>, getLowerRightCorner = \<lparr>getX = 3, getY = 2\<rparr>\<rparr>,
        rawCoordinates_float =
          \<lparr>getUpperLeftCorner = \<lparr>getX = Finite 0, getY = Finite 0\<rparr>,
           getLowerRightCorner = \<lparr>getX = Finite 3, getY = Finite 2\<rparr>\<rparr>,
        virtualZeroPositionRaw = (Finite 0, Finite 0)\<rparr>]]"

definition constants_c5 :: radialRankFilter_precomputedConstants_t where
  "constants_c5 =
     \<lparr>sparseLinearDataToConsiderIndices = [5], sparseBinIndices = [1], binCount = 3,
      dataCountPerBin = [0, 1, 0],
      intraBinIndices = [0, 0, 0, 0, 0, 1, 0, 0, 0, 0, 0, 0],
      binRadii = [Finite 0, Finite 1, Finite 2],
      intraBinInterpolationConstant = replicate 12 (Finite 0),
      accuracyConstants =
        \<lparr>minValuesPerBin = 1, minBinWidth = 1, maxConsideredValuesPerBin = 0,
         detektorsToConsiderSubscripts = [\<lparr>getX = 0, getY = 0\<rparr>],
         detektorsToCorrectSubscripts = [\<lparr>getX = 0, getY = 0\<rparr>],
         rank = Finite (1 / 2)\<rparr>\<rparr>"

definition data_c5 :: "flt list" where
  "data_c5 = [Finite 0, Finite 0, Finite 0, Finite 0,
              Finite 0, Finite (- (2 ^ 110)), fneg FLT_MAX, Finite 0,
              Finite 0, Finite 0, Finite 0, Finite 0]"

lemma subtract_background_sentinel:
  assumes "0 \<le> linearIndex" "linearIndex < int (length data_linear)"
    and "linearIndex < int (length (intraBinIndices precomputedConstants))"
    and "linearIndex < int (length (intraBinInterpolationConstant precomputedConstants))"
    and "0 \<le> intraBinIndices precomputedConstants ! nat linearIndex"
    and "intraBinIndices precomputedConstants ! nat linearIndex + 1 < int (length binValues)"
    and "data_linear ! nat linearIndex = fneg FLT_MAX"
  shows "subtract_background binValues precomputedConstants linearIndex data_linear =
     Inr (data_linear[nat linearIndex :=
            fsub (fneg FLT_MAX)
              (fadd (binValues ! nat (intraBinIndices precomputedConstants ! nat linearIndex))
                 (fmul (intraBinInterpolationConstant precomputedConstants ! nat linearIndex)
                    (fsub (binValues ! nat (intraBinIndices precomputedConstants ! nat linearIndex + 1))
                       (binValues ! nat (intraBinIndices precomputedConstants ! nat linearIndex)))))])"
  using assms
  by (simp add: subtract_background_def rd_def wr_def bind_def flt_neq_def flt_eq_def FLT_MAX_def)

lemma sentinel_absorbs_small_background: "fsub (fneg FLT_MAX) (Finite 5) = fneg FLT_MAX"
  by code_simp

text \<open>
  C5 (sentinel pixels in the background subtraction). The claim: a corrected pixel that
  holds the sentinel \<^verbatim>\<open>-FLT_MAX\<close> before the call holds it after the call. The loop skips
  the pixels equal to \<^verbatim>\<open>FLT_MAX\<close>; the background is subtracted from a sentinel pixel
  like from any other (\<open>subtract_background_sentinel\<close>). The sentinel survives only when
  the rounding absorbs the background (\<open>sentinel_absorbs_small_background\<close>). In the run
  below the panel has two interior pixels: pixel 5 holds \<open>- 2 ^ 110\<close> and is the only value
  of the bin 1, pixel 6 holds the sentinel. After the call pixel 6 holds
  \<open>- (2 ^ 128 - 2 ^ 111 - 2 ^ 104)\<close>, a finite value that is not the sentinel.
\<close>

theorem sentinel_pixel_rewritten:
  "applyRadialRankFilterBackgroundSubtraction data_c5 constants_c5 fmt_c5 positions_c5 =
     Inr [Finite 0, Finite 0, Finite 0, Finite 0,
          Finite 0, Finite 0, Finite (- (2 ^ 128 - 2 ^ 111 - 2 ^ 104)), Finite 0,
          Finite 0, Finite 0, Finite 0, Finite 0] \<and>
   data_c5 ! 6 = fneg FLT_MAX \<and>
   Finite (- (2 ^ 128 - 2 ^ 111 - 2 ^ 104)) \<noteq> fneg FLT_MAX"
  by code_simp

section \<open>Detector geometry (detectorGeometry.cpp)\<close>






















end
